theory Spec2Isabelle
  imports Complex_Main "HOL-Library.Product_Lexorder" "HOL-Library.Multiset"
begin

section \<open>Data model\<close>

text \<open>
  \<open>hint\<close> and \<open>hsize\<close> are C++ \<open>unsigned int\<close>, \<open>hfloat\<close> is \<open>double\<close>.
  Sizes, coordinates and indices are modelled as \<open>nat\<close>, and the 32-bit wrap-around
  of the source's arithmetic is written out: \<open>uadd\<close>, \<open>usub\<close> and \<open>umul\<close> are
  \<open>+\<close>, \<open>-\<close> and \<open>*\<close> of \<open>unsigned int\<close>, and \<open>u32\<close> reduces an integer
  expression modulo \<open>2 ^ 32\<close>.  A difference \<open>a - b\<close> whose subtrahend is a part
  of \<open>a\<close> (as in \<open>n - n / 2\<close>) cannot wrap and is written with the subtraction of
  \<open>nat\<close>.  \<open>hfloat\<close> is modelled by \<open>real\<close>: rounding, infinities and NaN are
  outside the model.
\<close>

type_synonym hint = nat
type_synonym hsize = nat
type_synonym hfloat = real

definition u32 :: "int \<Rightarrow> int" where
  "u32 z = z mod 2 ^ 32"

definition uadd :: "nat \<Rightarrow> nat \<Rightarrow> nat" where
  "uadd a b = (a + b) mod 2 ^ 32"

definition usub :: "nat \<Rightarrow> nat \<Rightarrow> nat" where
  "usub a b = nat ((int a - int b) mod 2 ^ 32)"

definition umul :: "nat \<Rightarrow> nat \<Rightarrow> nat" where
  "umul a b = (a * b) mod 2 ^ 32"

text \<open>Conversion of an \<open>unsigned int\<close> value to \<open>int\<close> (two's complement).\<close>

definition to_int :: "int \<Rightarrow> int" where
  "to_int u = (if u < 2 ^ 31 then u else u - 2 ^ 32)"

text \<open>Class \<open>HPoint\<close>: coordinates, difference value and traversal index.\<close>

record HPoint =
  X :: hint
  Y :: hint
  difference :: hfloat
  index :: hint

text \<open>\<open>HPoint(xx, yy)\<close>: difference and index start at zero.\<close>

definition HPoint2 :: "hint \<Rightarrow> hint \<Rightarrow> HPoint" where
  "HPoint2 xx yy = \<lparr>X = xx, Y = yy, difference = 0, index = 0\<rparr>"

text \<open>\<open>HPoint::operator+\<close>: a copy of the left operand with the coordinates added.\<close>

definition hp_plus :: "HPoint \<Rightarrow> HPoint \<Rightarrow> HPoint" where
  "hp_plus p q = p\<lparr>X := uadd (X p) (X q), Y := uadd (Y p) (Y q)\<rparr>"

datatype Orientation = A | B | C | D

datatype CurveType =
    H0 | H1 | H2 | H3 | H4 | H5 | H6 | H7 | H8 | H9
  | H10 | H11 | H12 | H13 | H14 | H15 | H16 | H17 | H18 | H19
  | H20 | H21 | H22 | H23 | H24 | H25 | H26 | H27 | H28 | H29
  | H30 | H31 | H32 | H33 | H34 | H35 | H36 | H37 | H38 | H39

text \<open>
  Class \<open>QuasiSquare\<close>: height \<open>n\<close>, width \<open>m\<close>, origin \<open>coord\<close> and orientation
  \<open>oABCD\<close>; the constructor takes them in this order.
\<close>

datatype QuasiSquare =
  QuasiSquare (qs_n: hsize) (qs_m: hsize) (qs_coord: HPoint) (qs_oABCD: Orientation)

section \<open>Region partitioning\<close>

text \<open>
  \<open>QuasiSquare::Partition\<close> appends the four children to \<open>partition_vec\<close>.  The two
  parity corrections are the two \<open>if\<close> blocks of the source, applied in sequence.
  The corners \<open>coord.X() + m1\<close> and \<open>coord.Y() + n1\<close> are \<open>unsigned int\<close> sums.
\<close>

definition Partition :: "QuasiSquare \<Rightarrow> QuasiSquare list \<Rightarrow> QuasiSquare list" where
  "Partition q partition_vec =
    (let n = qs_n q; m = qs_m q; coord = qs_coord q; ori = qs_oABCD q;
         n1 = n div 2; n2 = n - n1;
         m1 = m div 2; m2 = m - m1;
         (n1, n2) = (if (ori = A \<or> ori = B) \<and> n1 mod 2 = 1 then (n2, n1) else (n1, n2));
         (m1, m2) = (if (ori = A \<or> ori = B) \<and> m1 mod 2 = 1 then (m2, m1) else (m1, m2));
         (n1, n2) = (if (ori = C \<or> ori = D) \<and> n2 mod 2 = 1 then (n2, n1) else (n1, n2));
         (m1, m2) = (if (ori = C \<or> ori = D) \<and> m2 mod 2 = 1 then (m2, m1) else (m1, m2));
         lr = HPoint2 (uadd (X coord) m1) (Y coord);
         ur = HPoint2 (uadd (X coord) m1) (uadd (Y coord) n1);
         ul = HPoint2 (X coord) (uadd (Y coord) n1);
         ll = HPoint2 (X coord) (Y coord)
     in case ori of
          A \<Rightarrow> partition_vec @
                [QuasiSquare n1 m2 lr D, QuasiSquare n2 m2 ur A,
                 QuasiSquare n2 m1 ul A, QuasiSquare n1 m1 ll B]
        | B \<Rightarrow> partition_vec @
                [QuasiSquare n2 m1 ul C, QuasiSquare n2 m2 ur B,
                 QuasiSquare n1 m2 lr B, QuasiSquare n1 m1 ll A]
        | C \<Rightarrow> partition_vec @
                [QuasiSquare n2 m1 ul B, QuasiSquare n1 m1 ll C,
                 QuasiSquare n1 m2 lr C, QuasiSquare n2 m2 ur D]
        | D \<Rightarrow> partition_vec @
                [QuasiSquare n1 m2 lr A, QuasiSquare n1 m1 ll D,
                 QuasiSquare n2 m1 ul D, QuasiSquare n2 m2 ur C])"

text \<open>The grid cells a region covers, and its area.\<close>

definition cells :: "QuasiSquare \<Rightarrow> (nat \<times> nat) set" where
  "cells q = {X (qs_coord q) ..< X (qs_coord q) + qs_m q} \<times>
             {Y (qs_coord q) ..< Y (qs_coord q) + qs_n q}"

definition area :: "QuasiSquare \<Rightarrow> nat" where
  "area q = qs_n q * qs_m q"

text \<open>
  The halves as the specification words them: \<open>x1 = x div 2\<close>, \<open>x2 = x - x1\<close>; for
  orientations A and B an odd \<open>x1\<close> is swapped with \<open>x2\<close>, for C and D the swap
  happens when \<open>x2\<close> is odd.
\<close>

definition spec_halves :: "Orientation \<Rightarrow> nat \<Rightarrow> nat \<times> nat" where
  "spec_halves ori k =
    (let k1 = k div 2; k2 = k - k1
     in if ori = A \<or> ori = B then (if odd k1 then (k2, k1) else (k1, k2))
        else (if odd k2 then (k2, k1) else (k1, k2)))"

text \<open>
  A region is \<open>in_range\<close> when the coordinates just beyond its far corner are still
  values of \<open>hint\<close>: no coordinate computed inside the region wraps around.
\<close>

definition in_range :: "QuasiSquare \<Rightarrow> bool" where
  "in_range q \<longleftrightarrow> X (qs_coord q) + qs_m q < 2 ^ 32 \<and> Y (qs_coord q) + qs_n q < 2 ^ 32"

text \<open>Height, width and origin offset (relative to a parent origin) of a region.\<close>

definition geometry :: "HPoint \<Rightarrow> QuasiSquare \<Rightarrow> nat \<times> nat \<times> nat \<times> nat" where
  "geometry origin q =
    (qs_n q, qs_m q, X (qs_coord q) - X origin, Y (qs_coord q) - Y origin)"

section \<open>Curve construction for the primitive family\<close>

text \<open>
  The primitive shapes of \<open>QuasiSquare::BuildCurve\<close>: the four \<open>if\<close> blocks that
  follow the recursive part, in the order of the source.  A write
  \<open>coordinates_list[index] = p\<close> is a list update; the source never writes outside
  the vector when \<open>index + n * m\<close> is at most its size (lemma \<open>BuildCurve_frame_aux\<close>).
  The local \<open>p\<close> is a default-constructed \<open>HPoint\<close> whose coordinates are set
  before every use.  Coordinates and \<open>index + k\<close> are \<open>unsigned int\<close> expressions.
\<close>

definition write_primitive :: "QuasiSquare \<Rightarrow> HPoint list \<Rightarrow> hsize \<Rightarrow> HPoint list" where
  "write_primitive q coordinates_list idx =
    (let n = qs_n q; m = qs_m q; coord = qs_coord q; ori = qs_oABCD q;
         l1 = (if n = 1 \<and> m = 1 then coordinates_list[idx := coord] else coordinates_list);
         l2 = (if n = 1 \<and> m = 2 then
                 (if ori = A \<or> ori = B then
                    (let p = HPoint2 (uadd (X coord) 1) (Y coord)
                     in l1[idx := coord, uadd idx 1 := p])
                  else
                    (let p = HPoint2 (uadd (X coord) 1) (Y coord)
                     in l1[idx := p, uadd idx 1 := coord]))
               else l1);
         l3 = (if n = 2 \<and> m = 1 then
                 (if ori = B \<or> ori = A then
                    (let p = HPoint2 (X coord) (uadd (Y coord) 1)
                     in l2[idx := coord, uadd idx 1 := p])
                  else
                    (let p = HPoint2 (X coord) (uadd (Y coord) 1)
                     in l2[idx := p, uadd idx 1 := coord]))
               else l2);
         l4 = (if n = 2 \<and> m = 2 then
                 (case ori of
                    A \<Rightarrow>
                      (let p1 = HPoint2 (X coord) (uadd (Y coord) 1);
                           p2 = p1\<lparr>X := uadd (X coord) 1\<rparr>;
                           p3 = p2\<lparr>Y := usub (Y p2) 1\<rparr>
                       in l3[idx := coord, uadd idx 1 := p1, uadd idx 2 := p2, uadd idx 3 := p3])
                  | B \<Rightarrow>
                      (let p1 = HPoint2 (uadd (X coord) 1) (Y coord);
                           p2 = p1\<lparr>Y := uadd (Y coord) 1\<rparr>;
                           p3 = p2\<lparr>X := usub (X p2) 1\<rparr>
                       in l3[idx := coord, uadd idx 1 := p1, uadd idx 2 := p2, uadd idx 3 := p3])
                  | C \<Rightarrow>
                      (let p0 = HPoint2 (uadd (X coord) 1) (uadd (Y coord) 1);
                           p1 = p0\<lparr>Y := Y coord\<rparr>;
                           p3 = HPoint2 (X coord) (uadd (Y coord) 1)
                       in l3[idx := p0, uadd idx 1 := p1, uadd idx 2 := coord, uadd idx 3 := p3])
                  | D \<Rightarrow>
                      (let p0 = HPoint2 (uadd (X coord) 1) (uadd (Y coord) 1);
                           p1 = p0\<lparr>X := X coord\<rparr>;
                           p3 = HPoint2 (uadd (X coord) 1) (Y coord)
                       in l3[idx := p0, uadd idx 1 := p1, uadd idx 2 := coord, uadd idx 3 := p3]))
               else l3)
     in l4)"

text \<open>
  \<open>QuasiSquare::BuildCurve\<close>.  The loop \<open>for (i = 0; i < 4; ++i)\<close> pops the children
  off the back of the partition vector; it is written out as its four iterations.  The
  first two children are pushed to the thread pool and the last two run on the caller;
  all four write disjoint index ranges computed beforehand, and
  \<open>HilbertCurve::BuildCurveH0\<close> drains the pool before it returns, so the model runs
  the four calls in sequence.
\<close>

function BuildCurve :: "QuasiSquare \<Rightarrow> HPoint list \<Rightarrow> hsize \<Rightarrow> HPoint list" where
  "BuildCurve q coordinates_list idx =
    (if qs_n q > 2 \<or> qs_m q > 2 then
       (let qsv = Partition q [];
            qs1 = last qsv; qsv1 = butlast qsv;
            l1 = BuildCurve qs1 coordinates_list idx;
            idx1 = uadd idx (umul (qs_n qs1) (qs_m qs1));
            qs2 = last qsv1; qsv2 = butlast qsv1;
            l2 = BuildCurve qs2 l1 idx1;
            idx2 = uadd idx1 (umul (qs_n qs2) (qs_m qs2));
            qs3 = last qsv2; qsv3 = butlast qsv2;
            l3 = BuildCurve qs3 l2 idx2;
            idx3 = uadd idx2 (umul (qs_n qs3) (qs_m qs3));
            qs4 = last qsv3;
            l4 = BuildCurve qs4 l3 idx3;
            idx4 = uadd idx3 (umul (qs_n qs4) (qs_m qs4))
        in write_primitive q l4 idx4)
     else write_primitive q coordinates_list idx)"
  by pat_completeness auto

lemma Partition_cases:
  "Partition (QuasiSquare n m c ori) vec =
    (let (n1, n2) = spec_halves ori n; (m1, m2) = spec_halves ori m;
         lr = HPoint2 (uadd (X c) m1) (Y c);
         ur = HPoint2 (uadd (X c) m1) (uadd (Y c) n1);
         ul = HPoint2 (X c) (uadd (Y c) n1);
         ll = HPoint2 (X c) (Y c)
     in case ori of
          A \<Rightarrow> vec @ [QuasiSquare n1 m2 lr D, QuasiSquare n2 m2 ur A,
                 QuasiSquare n2 m1 ul A, QuasiSquare n1 m1 ll B]
        | B \<Rightarrow> vec @ [QuasiSquare n2 m1 ul C, QuasiSquare n2 m2 ur B,
                 QuasiSquare n1 m2 lr B, QuasiSquare n1 m1 ll A]
        | C \<Rightarrow> vec @ [QuasiSquare n2 m1 ul B, QuasiSquare n1 m1 ll C,
                 QuasiSquare n1 m2 lr C, QuasiSquare n2 m2 ur D]
        | D \<Rightarrow> vec @ [QuasiSquare n1 m2 lr A, QuasiSquare n1 m1 ll D,
                 QuasiSquare n2 m1 ul D, QuasiSquare n2 m2 ur C])"
  by (cases ori) (simp_all add: Partition_def spec_halves_def Let_def odd_iff_mod_2_eq_one)

lemma spec_halves_sum: "spec_halves ori k = (k1, k2) \<Longrightarrow> k1 + k2 = k"
  by (auto simp: spec_halves_def Let_def split: if_splits)

lemma Partition_explicit:
  assumes hn: "spec_halves ori n = (n1, n2)" and hm: "spec_halves ori m = (m1, m2)"
  shows "Partition (QuasiSquare n m c ori) [] =
     (case ori of
          A \<Rightarrow> [QuasiSquare n1 m2 (HPoint2 (uadd (X c) m1) (Y c)) D,
                 QuasiSquare n2 m2 (HPoint2 (uadd (X c) m1) (uadd (Y c) n1)) A,
                 QuasiSquare n2 m1 (HPoint2 (X c) (uadd (Y c) n1)) A,
                 QuasiSquare n1 m1 (HPoint2 (X c) (Y c)) B]
        | B \<Rightarrow> [QuasiSquare n2 m1 (HPoint2 (X c) (uadd (Y c) n1)) C,
                 QuasiSquare n2 m2 (HPoint2 (uadd (X c) m1) (uadd (Y c) n1)) B,
                 QuasiSquare n1 m2 (HPoint2 (uadd (X c) m1) (Y c)) B,
                 QuasiSquare n1 m1 (HPoint2 (X c) (Y c)) A]
        | C \<Rightarrow> [QuasiSquare n2 m1 (HPoint2 (X c) (uadd (Y c) n1)) B,
                 QuasiSquare n1 m1 (HPoint2 (X c) (Y c)) C,
                 QuasiSquare n1 m2 (HPoint2 (uadd (X c) m1) (Y c)) C,
                 QuasiSquare n2 m2 (HPoint2 (uadd (X c) m1) (uadd (Y c) n1)) D]
        | D \<Rightarrow> [QuasiSquare n1 m2 (HPoint2 (uadd (X c) m1) (Y c)) A,
                 QuasiSquare n1 m1 (HPoint2 (X c) (Y c)) D,
                 QuasiSquare n2 m1 (HPoint2 (X c) (uadd (Y c) n1)) D,
                 QuasiSquare n2 m2 (HPoint2 (uadd (X c) m1) (uadd (Y c) n1)) C])"
  by (simp add: Partition_cases hn hm Let_def split: Orientation.split)

lemma spec_halves_le:
  "spec_halves ori k = (k1, k2) \<Longrightarrow> k1 \<le> (k + 1) div 2 \<and> k2 \<le> (k + 1) div 2"
  by (auto simp: spec_halves_def Let_def split: if_splits)

text \<open>Every child of a region that is not primitive is smaller in \<open>n + m\<close>.\<close>

lemma Partition_children:
  assumes P: "Partition q [] = [q1, q2, q3, q4]" and big: "2 < qs_n q \<or> 2 < qs_m q"
  shows "qs_n q1 + qs_m q1 < qs_n q + qs_m q \<and> qs_n q2 + qs_m q2 < qs_n q + qs_m q \<and>
     qs_n q3 + qs_m q3 < qs_n q + qs_m q \<and> qs_n q4 + qs_m q4 < qs_n q + qs_m q"
proof -
  obtain n m c ori where q: "q = QuasiSquare n m c ori" by (cases q)
  obtain n1 n2 where hn: "spec_halves ori n = (n1, n2)" by (cases "spec_halves ori n")
  obtain m1 m2 where hm: "spec_halves ori m = (m1, m2)" by (cases "spec_halves ori m")
  have le: "n1 \<le> (n + 1) div 2" "n2 \<le> (n + 1) div 2" "m1 \<le> (m + 1) div 2" "m2 \<le> (m + 1) div 2"
    using spec_halves_le[OF hn] spec_halves_le[OF hm] by simp_all
  have dims: "(qs_n q1 = n1 \<or> qs_n q1 = n2) \<and> (qs_m q1 = m1 \<or> qs_m q1 = m2)"
    "(qs_n q2 = n1 \<or> qs_n q2 = n2) \<and> (qs_m q2 = m1 \<or> qs_m q2 = m2)"
    "(qs_n q3 = n1 \<or> qs_n q3 = n2) \<and> (qs_m q3 = m1 \<or> qs_m q3 = m2)"
    "(qs_n q4 = n1 \<or> qs_n q4 = n2) \<and> (qs_m q4 = m1 \<or> qs_m q4 = m2)"
    using P unfolding q Partition_explicit[OF hn hm] by (cases ori; auto)+
  have small: "\<And>a b. a \<le> (n + 1) div 2 \<Longrightarrow> b \<le> (m + 1) div 2 \<Longrightarrow> a + b < n + m"
    using big unfolding q by auto
  have kn: "\<And>k. qs_n k = n1 \<or> qs_n k = n2 \<Longrightarrow> qs_n k \<le> (n + 1) div 2"
    using le by auto
  have km: "\<And>k. qs_m k = m1 \<or> qs_m k = m2 \<Longrightarrow> qs_m k \<le> (m + 1) div 2"
    using le by auto
  show ?thesis
    unfolding q QuasiSquare.sel using dims kn km small by blast
qed

lemma Partition_length: "\<exists>q1 q2 q3 q4. Partition q [] = [q1, q2, q3, q4]"
proof -
  obtain n m c ori where q: "q = QuasiSquare n m c ori" by (cases q)
  obtain n1 n2 where hn: "spec_halves ori n = (n1, n2)" by (cases "spec_halves ori n")
  obtain m1 m2 where hm: "spec_halves ori m = (m1, m2)" by (cases "spec_halves ori m")
  show ?thesis unfolding q Partition_explicit[OF hn hm] by (cases ori) simp_all
qed

termination BuildCurve
proof (relation "measure (\<lambda>(q, l, i). qs_n q + qs_m q)", goal_cases)
  case 1
  show ?case by simp
next
  case (2 q l i qsv qs1)
  obtain q1 q2 q3 q4 where P: "Partition q [] = [q1, q2, q3, q4]"
    using Partition_length by blast
  with 2 Partition_children[OF P] show ?case by simp
next
  case (3 q l i qsv qs1 qsv1 l1 idx1 qs2)
  obtain q1 q2 q3 q4 where P: "Partition q [] = [q1, q2, q3, q4]"
    using Partition_length by blast
  with 3 Partition_children[OF P] show ?case by simp
next
  case (4 q l i qsv qs1 qsv1 l1 idx1 qs2 qsv2 l2 idx2 qs3)
  obtain q1 q2 q3 q4 where P: "Partition q [] = [q1, q2, q3, q4]"
    using Partition_length by blast
  with 4 Partition_children[OF P] show ?case by simp
next
  case (5 q l i qsv qs1 qsv1 l1 idx1 qs2 qsv2 l2 idx2 qs3 qsv3 l3 idx3 qs4)
  obtain q1 q2 q3 q4 where P: "Partition q [] = [q1, q2, q3, q4]"
    using Partition_length by blast
  with 5 Partition_children[OF P] show ?case by simp
qed

declare BuildCurve.simps [simp del]

section \<open>Partition tiles its region\<close>

lemma uadd_small: "a + b < 2 ^ 32 \<Longrightarrow> uadd a b = a + b"
  by (simp add: uadd_def)

lemma umul_small: "a * b < 2 ^ 32 \<Longrightarrow> umul a b = a * b"
  by (simp add: umul_def)

lemma Partition_shape:
  fixes n m :: nat and c :: HPoint and ori :: Orientation
  defines "q \<equiv> QuasiSquare n m c ori"
  defines "P \<equiv> Partition q []"
  shows "P = [P ! 0, P ! 1, P ! 2, P ! 3]"
    and "area (P ! 0) + area (P ! 1) + area (P ! 2) + area (P ! 3) = n * m"
proof -
  obtain n1 n2 where hn: "spec_halves ori n = (n1, n2)" by (cases "spec_halves ori n")
  obtain m1 m2 where hm: "spec_halves ori m = (m1, m2)" by (cases "spec_halves ori m")
  have sn: "n = n1 + n2" and sm: "m = m1 + m2"
    using spec_halves_sum[OF hn] spec_halves_sum[OF hm] by simp_all
  note E = Partition_explicit[OF hn hm, of c, folded q_def P_def]
  show "P = [P ! 0, P ! 1, P ! 2, P ! 3]"
    by (cases ori) (simp_all add: E)
  show "area (P ! 0) + area (P ! 1) + area (P ! 2) + area (P ! 3) = n * m"
    by (cases ori) (simp_all add: E area_def sn sm algebra_simps)
qed

text \<open>
  Inside a region that is \<open>in_range\<close> the corner sums of \<open>Partition\<close> do not wrap, and
  the children are the four rectangles cut at \<open>m1\<close> and \<open>n1\<close>.
\<close>

lemma Partition_in_range:
  assumes hn: "spec_halves ori n = (n1, n2)" and hm: "spec_halves ori m = (m1, m2)"
    and r: "in_range (QuasiSquare n m c ori)"
  shows "Partition (QuasiSquare n m c ori) [] =
     (case ori of
          A \<Rightarrow> [QuasiSquare n1 m2 (HPoint2 (X c + m1) (Y c)) D,
                 QuasiSquare n2 m2 (HPoint2 (X c + m1) (Y c + n1)) A,
                 QuasiSquare n2 m1 (HPoint2 (X c) (Y c + n1)) A,
                 QuasiSquare n1 m1 (HPoint2 (X c) (Y c)) B]
        | B \<Rightarrow> [QuasiSquare n2 m1 (HPoint2 (X c) (Y c + n1)) C,
                 QuasiSquare n2 m2 (HPoint2 (X c + m1) (Y c + n1)) B,
                 QuasiSquare n1 m2 (HPoint2 (X c + m1) (Y c)) B,
                 QuasiSquare n1 m1 (HPoint2 (X c) (Y c)) A]
        | C \<Rightarrow> [QuasiSquare n2 m1 (HPoint2 (X c) (Y c + n1)) B,
                 QuasiSquare n1 m1 (HPoint2 (X c) (Y c)) C,
                 QuasiSquare n1 m2 (HPoint2 (X c + m1) (Y c)) C,
                 QuasiSquare n2 m2 (HPoint2 (X c + m1) (Y c + n1)) D]
        | D \<Rightarrow> [QuasiSquare n1 m2 (HPoint2 (X c + m1) (Y c)) A,
                 QuasiSquare n1 m1 (HPoint2 (X c) (Y c)) D,
                 QuasiSquare n2 m1 (HPoint2 (X c) (Y c + n1)) D,
                 QuasiSquare n2 m2 (HPoint2 (X c + m1) (Y c + n1)) C])"
proof -
  have "m1 \<le> m" "n1 \<le> n"
    using spec_halves_sum[OF hn] spec_halves_sum[OF hm] by simp_all
  then have "X c + m1 < 2 ^ 32" "Y c + n1 < 2 ^ 32"
    using r by (simp_all add: in_range_def)
  then have u: "uadd (X c) m1 = X c + m1" "uadd (Y c) n1 = Y c + n1"
    by (simp_all add: uadd_small)
  show ?thesis unfolding Partition_explicit[OF hn hm] u ..
qed

lemma Partition_cells:
  fixes n m :: nat and c :: HPoint and ori :: Orientation
  defines "q \<equiv> QuasiSquare n m c ori"
  defines "P \<equiv> Partition q []"
  assumes r: "in_range q"
  shows "cells (P ! 0) \<union> cells (P ! 1) \<union> cells (P ! 2) \<union> cells (P ! 3) = cells q"
    and "cells (P ! 0) \<inter> cells (P ! 1) = {}" and "cells (P ! 0) \<inter> cells (P ! 2) = {}"
    and "cells (P ! 0) \<inter> cells (P ! 3) = {}" and "cells (P ! 1) \<inter> cells (P ! 2) = {}"
    and "cells (P ! 1) \<inter> cells (P ! 3) = {}" and "cells (P ! 2) \<inter> cells (P ! 3) = {}"
    and "in_range (P ! 0)" and "in_range (P ! 1)" and "in_range (P ! 2)" and "in_range (P ! 3)"
proof -
  obtain n1 n2 where hn: "spec_halves ori n = (n1, n2)" by (cases "spec_halves ori n")
  obtain m1 m2 where hm: "spec_halves ori m = (m1, m2)" by (cases "spec_halves ori m")
  have sn: "n = n1 + n2" and sm: "m = m1 + m2"
    using spec_halves_sum[OF hn] spec_halves_sum[OF hm] by simp_all
  note E = Partition_in_range[OF hn hm r[unfolded q_def], folded q_def P_def]
  have R: "cells q = {X c ..< X c + (m1 + m2)} \<times> {Y c ..< Y c + (n1 + n2)}"
    by (simp add: cells_def q_def sn sm)
  have B: "X c + (m1 + m2) < 2 ^ 32" "Y c + (n1 + n2) < 2 ^ 32"
    using r by (simp_all add: in_range_def q_def sn sm)
  show "cells (P ! 0) \<union> cells (P ! 1) \<union> cells (P ! 2) \<union> cells (P ! 3) = cells q"
    unfolding R by (cases ori) (auto simp: E cells_def HPoint2_def)
  show "cells (P ! 0) \<inter> cells (P ! 1) = {}" "cells (P ! 0) \<inter> cells (P ! 2) = {}"
    "cells (P ! 0) \<inter> cells (P ! 3) = {}" "cells (P ! 1) \<inter> cells (P ! 2) = {}"
    "cells (P ! 1) \<inter> cells (P ! 3) = {}" "cells (P ! 2) \<inter> cells (P ! 3) = {}"
    by (cases ori; auto simp: E cells_def HPoint2_def)+
  show "in_range (P ! 0)" "in_range (P ! 1)" "in_range (P ! 2)" "in_range (P ! 3)"
    using B by (cases ori; simp add: E in_range_def HPoint2_def)+
qed

text \<open>
  Claim C3.  For every height \<open>n\<close>, width \<open>m\<close> and orientation, and every origin for
  which the region is \<open>in_range\<close> (the coordinates up to the far corner are values of
  \<open>hint\<close>, so that the corner sums do not wrap), \<open>Partition\<close> emits exactly four
  children; their cell sets are pairwise disjoint and their union is the parent's cell
  set; their areas sum to \<open>n * m\<close>; and their heights, widths and origin offsets are
  those given by the halves \<open>n1, n2, m1, m2\<close> of the specification, with the parity
  correction on \<open>n1, m1\<close> for orientations A and B and on \<open>n2, m2\<close> for C and D.
\<close>

theorem Partition_tiles:
  fixes n m :: nat and c :: HPoint and ori :: Orientation
  defines "q \<equiv> QuasiSquare n m c ori"
  assumes r: "X c + m < 2 ^ 32" "Y c + n < 2 ^ 32"
  shows "\<exists>q1 q2 q3 q4 n1 n2 m1 m2.
      Partition q [] = [q1, q2, q3, q4]
    \<and> cells q1 \<union> cells q2 \<union> cells q3 \<union> cells q4 = cells q
    \<and> cells q1 \<inter> cells q2 = {} \<and> cells q1 \<inter> cells q3 = {} \<and> cells q1 \<inter> cells q4 = {}
    \<and> cells q2 \<inter> cells q3 = {} \<and> cells q2 \<inter> cells q4 = {} \<and> cells q3 \<inter> cells q4 = {}
    \<and> area q1 + area q2 + area q3 + area q4 = n * m
    \<and> spec_halves ori n = (n1, n2) \<and> spec_halves ori m = (m1, m2)
    \<and> set (map (geometry c) [q1, q2, q3, q4]) =
        {(n1, m1, 0, 0), (n2, m1, 0, n1), (n2, m2, m1, n1), (n1, m2, m1, 0)}"
proof -
  obtain n1 n2 where hn: "spec_halves ori n = (n1, n2)" by (cases "spec_halves ori n")
  obtain m1 m2 where hm: "spec_halves ori m = (m1, m2)" by (cases "spec_halves ori m")
  have ir: "in_range q" using r by (simp add: in_range_def q_def)
  note E = Partition_in_range[OF hn hm ir[unfolded q_def], folded q_def]
  note shape = Partition_shape[of n m c ori, folded q_def]
  note parts = Partition_cells(1-7)[of n m c ori, folded q_def, OF ir]
  have G: "set (map (geometry c)
             [Partition q [] ! 0, Partition q [] ! 1, Partition q [] ! 2, Partition q [] ! 3]) =
        {(n1, m1, 0, 0), (n2, m1, 0, n1), (n2, m2, m1, n1), (n1, m2, m1, 0)}"
    by (cases ori) (auto simp: E geometry_def HPoint2_def)
  show ?thesis
    apply (rule exI[where x = "Partition q [] ! 0"], rule exI[where x = "Partition q [] ! 1"])
    apply (rule exI[where x = "Partition q [] ! 2"], rule exI[where x = "Partition q [] ! 3"])
    apply (rule exI[where x = n1], rule exI[where x = n2])
    apply (rule exI[where x = m1], rule exI[where x = m2])
    apply (intro conjI)
    apply (rule shape parts hn hm G)+
    done
qed

text \<open>
  The theorem applied to the 5 x 3 region at the origin with orientation A, whose
  halves are \<open>n1 = 2, n2 = 3\<close> and, after the parity swap, \<open>m1 = 2, m2 = 1\<close>.
\<close>

theorem Partition_tiles_witness:
  "\<exists>q1 q2 q3 q4 n1 n2 m1 m2.
      Partition (QuasiSquare 5 3 (HPoint2 0 0) A) [] = [q1, q2, q3, q4]
    \<and> cells q1 \<union> cells q2 \<union> cells q3 \<union> cells q4 = cells (QuasiSquare 5 3 (HPoint2 0 0) A)
    \<and> cells q1 \<inter> cells q2 = {} \<and> cells q1 \<inter> cells q3 = {} \<and> cells q1 \<inter> cells q4 = {}
    \<and> cells q2 \<inter> cells q3 = {} \<and> cells q2 \<inter> cells q4 = {} \<and> cells q3 \<inter> cells q4 = {}
    \<and> area q1 + area q2 + area q3 + area q4 = 5 * 3
    \<and> spec_halves A 5 = (n1, n2) \<and> spec_halves A 3 = (m1, m2)
    \<and> set (map (geometry (HPoint2 0 0)) [q1, q2, q3, q4]) =
        {(n1, m1, 0, 0), (n2, m1, 0, n1), (n2, m2, m1, n1), (n1, m2, m1, 0)}"
  by (rule Partition_tiles) (simp_all add: HPoint2_def)

section \<open>Best-fit dimensions\<close>

text \<open>
  \<open>std::floor(std::sqrt(lenght))\<close> and \<open>std::ceil(std::sqrt(lenght))\<close> for a 32-bit
  \<open>lenght\<close>, as integer functions: the \<open>double\<close> square root of an integer below
  \<open>2 ^ 32\<close> is close enough to the real one for its floor and ceiling to be exact.
  Lemmas \<open>floor_sqrt_real\<close> and \<open>ceil_sqrt_real\<close> relate them to the real square root.
\<close>

fun floor_sqrt :: "nat \<Rightarrow> nat" where
  "floor_sqrt 0 = 0"
| "floor_sqrt (Suc k) =
     (let r = floor_sqrt k in if (r + 1) * (r + 1) \<le> Suc k then r + 1 else r)"

definition ceil_sqrt :: "nat \<Rightarrow> nat" where
  "ceil_sqrt k = (let r = floor_sqrt k in if r * r = k then r else r + 1)"

text \<open>
  \<open>HilbertPlot::bestDimensions\<close>.  The products and differences are \<open>unsigned int\<close>
  operations (wrapping modulo \<open>2 ^ 32\<close>), the differences are then converted to
  \<open>int\<close> and \<open>std::abs\<close> is taken.  \<open>dim.first\<close> is the width.
\<close>

definition bestDimensions :: "hsize \<Rightarrow> hsize \<times> hsize" where
  "bestDimensions lenght =
    (let sq = floor_sqrt lenght in
     if u32 (int sq * int sq) = int lenght then (sq, sq)
     else
       (let f = floor_sqrt lenght;
            c = ceil_sqrt lenght;
            min1 = \<bar>to_int (u32 (int lenght - u32 (int f * int f)))\<bar>;
            min2 = \<bar>to_int (u32 (int lenght - u32 (int c * int c)))\<bar>;
            min3 = \<bar>to_int (u32 (int lenght - u32 (int f * int c)))\<bar>
        in if min1 < min2 then (if min1 < min3 then (f, f) else (c, f))
           else if min2 < min3 then (c, c)
           else (c, f)))"

text \<open>The padding waste of a candidate pair for a sequence of length \<open>L\<close>.\<close>

definition waste :: "nat \<Rightarrow> nat \<times> nat \<Rightarrow> int" where
  "waste L d = \<bar>int L - int (fst d * snd d)\<bar>"

lemma floor_sqrt_bounds: "floor_sqrt k * floor_sqrt k \<le> k \<and> k < (floor_sqrt k + 1) * (floor_sqrt k + 1)"
proof (induction k)
  case 0 show ?case by simp
next
  case (Suc k)
  show ?case using Suc by (auto simp: Let_def)
qed

lemma floor_sqrt_unique:
  assumes "r * r \<le> k" "k < (r + 1) * (r + 1)"
  shows "floor_sqrt k = r"
proof -
  let ?s = "floor_sqrt k"
  have b: "?s * ?s \<le> k" "k < (?s + 1) * (?s + 1)" using floor_sqrt_bounds by auto
  have "\<not> ?s < r"
  proof
    assume "?s < r" then have "?s + 1 \<le> r" by linarith
    then have "(?s + 1) * (?s + 1) \<le> r * r" by (simp add: mult_le_mono del: mult_Suc mult_Suc_right)
    with b assms show False by linarith
  qed
  moreover have "\<not> r < ?s"
  proof
    assume "r < ?s" then have "r + 1 \<le> ?s" by linarith
    then have "(r + 1) * (r + 1) \<le> ?s * ?s" by (simp add: mult_le_mono del: mult_Suc mult_Suc_right)
    with b assms show False by linarith
  qed
  ultimately show ?thesis by simp
qed

lemma floor_sqrt_real: "floor_sqrt k = nat \<lfloor>sqrt (real k)\<rfloor>"
proof -
  let ?s = "floor_sqrt k"
  have b: "?s * ?s \<le> k" "k < (?s + 1) * (?s + 1)" using floor_sqrt_bounds by auto
  have 1: "real ?s \<le> sqrt (real k)"
  proof -
    from b(1) have "real (?s * ?s) \<le> real k" by (simp only: of_nat_le_iff)
    then have "real ?s * real ?s \<le> real k" by (simp only: of_nat_mult)
    then show ?thesis by (simp add: real_le_rsqrt power2_eq_square)
  qed
  have 2: "sqrt (real k) < real ?s + 1"
  proof -
    from b(2) have "real k < real ((?s + 1) * (?s + 1))" by (simp only: of_nat_less_iff)
    then have "real k < (real ?s + 1) * (real ?s + 1)" by (simp only: of_nat_mult of_nat_add of_nat_1)
    then show ?thesis by (simp add: real_less_lsqrt power2_eq_square)
  qed
  have "\<lfloor>sqrt (real k)\<rfloor> = int ?s"
    using 1 2 by (simp add: floor_eq_iff)
  then show ?thesis by simp
qed

lemma ceil_sqrt_real: "ceil_sqrt k = nat \<lceil>sqrt (real k)\<rceil>"
proof -
  let ?s = "floor_sqrt k"
  have b: "?s * ?s \<le> k" "k < (?s + 1) * (?s + 1)" using floor_sqrt_bounds by auto
  show ?thesis
  proof (cases "?s * ?s = k")
    case True
    then have "real k = real (?s * ?s)" by simp
    then have "real k = (real ?s)\<^sup>2" by (simp only: of_nat_mult power2_eq_square)
    then have "sqrt (real k) = \<bar>real ?s\<bar>" by (simp only: real_sqrt_abs)
    then have "sqrt (real k) = real ?s" by simp
    then show ?thesis using True by (simp add: ceil_sqrt_def)
  next
    case False
    with b have lt: "?s * ?s < k" by simp
    have 1: "real ?s < sqrt (real k)"
    proof -
      from lt have "real (?s * ?s) < real k" by (simp only: of_nat_less_iff)
      then have "real ?s * real ?s < real k" by (simp only: of_nat_mult)
      then show ?thesis by (simp add: real_less_rsqrt power2_eq_square)
    qed
    have 2: "sqrt (real k) \<le> real ?s + 1"
    proof -
      from b(2) have "k \<le> (?s + 1) * (?s + 1)" by (rule less_imp_le)
      then have "real k \<le> real ((?s + 1) * (?s + 1))" by (simp only: of_nat_le_iff)
      then have "real k \<le> (real ?s + 1) * (real ?s + 1)" by (simp only: of_nat_mult of_nat_add of_nat_1)
      then show ?thesis by (simp add: real_le_lsqrt power2_eq_square)
    qed
    have "\<lceil>sqrt (real k)\<rceil> = int ?s + 1"
      using 1 2 by (simp add: ceiling_eq_iff)
    then show ?thesis using False by (simp add: ceil_sqrt_def Let_def)
  qed
qed

lemma to_int_u32: "- (2 ^ 31) \<le> d \<Longrightarrow> d < 2 ^ 31 \<Longrightarrow> to_int (u32 d) = d"
proof (cases "0 \<le> d")
  case True
  assume "d < 2 ^ 31"
  with True have "d mod 2 ^ 32 = d" by simp
  with True \<open>d < 2 ^ 31\<close> show ?thesis by (simp add: to_int_def u32_def)
next
  case False
  assume a: "- (2 ^ 31) \<le> d"
  from False a have "(d + 2 ^ 32) mod 2 ^ 32 = d + 2 ^ 32"
    by (intro mod_pos_pos_trivial) simp_all
  then have "d mod 2 ^ 32 = d + 2 ^ 32" by simp
  with False a show ?thesis by (simp add: to_int_def u32_def)
qed

lemma u32_sub_u32: "u32 (a - u32 b) = u32 (a - b)"
  by (simp add: u32_def mod_diff_right_eq)


lemma u32_id: "0 \<le> z \<Longrightarrow> z < 2 ^ 32 \<Longrightarrow> u32 z = z"
  by (simp add: u32_def)

lemma wrapped_difference:
  assumes "- 2147483648 \<le> int L - z" "int L - z < 2147483648"
  shows "\<bar>to_int (u32 (int L - u32 z))\<bar> = \<bar>int L - z\<bar>"
proof -
  have "to_int (u32 (int L - z)) = int L - z"
    using assms by (intro to_int_u32) simp_all
  then show ?thesis by (simp add: u32_sub_u32)
qed

lemma floor_sqrt_small:
  assumes "L < 2 ^ 32"
  shows "floor_sqrt L < 65536"
proof (rule ccontr)
  assume "\<not> floor_sqrt L < 65536"
  then have "65536 \<le> floor_sqrt L" by simp
  then have "65536 * 65536 \<le> floor_sqrt L * floor_sqrt L" by (intro mult_le_mono)
  with floor_sqrt_bounds[of L] assms show False by simp
qed

lemma bestDimensions_square:
  assumes "L < 2 ^ 32" "s * s = L"
  shows "bestDimensions L = (s, s)"
proof -
  have fs: "floor_sqrt L = s" using assms(2) by (intro floor_sqrt_unique) auto
  have "int (s * s) = int L" using assms(2) by simp
  then have "int s * int s = int L" by (simp only: of_nat_mult)
  moreover have "u32 (int L) = int L" using assms(1) by (intro u32_id) auto
  ultimately show ?thesis by (simp add: bestDimensions_def fs Let_def)
qed

lemma bestDimensions_nonsquare:
  assumes small: "L < 2 ^ 32" and ns: "floor_sqrt L * floor_sqrt L \<noteq> L"
  defines "f \<equiv> floor_sqrt L" and "c \<equiv> ceil_sqrt L"
  defines "w1 \<equiv> waste L (f, f)" and "w2 \<equiv> waste L (c, c)" and "w3 \<equiv> waste L (c, f)"
  shows "bestDimensions L =
    (if w1 < w2 then (if w1 < w3 then (f, f) else (c, f))
     else if w2 < w3 then (c, c) else (c, f))"
proof -
  have c: "c = f + 1" using ns by (simp add: c_def f_def ceil_sqrt_def Let_def)
  have b: "f * f \<le> L" "L < (f + 1) * (f + 1)" using floor_sqrt_bounds[of L] by (auto simp: f_def)
  have f: "f < 65536" using floor_sqrt_small[OF small] by (simp add: f_def)
  have ib1: "int f * int f \<le> int L"
  proof -
    from b(1) have "int (f * f) \<le> int L" by (simp only: of_nat_le_iff)
    then show ?thesis by (simp only: of_nat_mult)
  qed
  have ib2: "int L \<le> int f * int f + 2 * int f"
  proof -
    from b(2) have "L \<le> f * f + 2 * f" by simp
    then have "int L \<le> int (f * f + 2 * f)" by (simp only: of_nat_le_iff)
    then show ?thesis by (simp only: of_nat_mult of_nat_add of_nat_numeral)
  qed
  have fi: "int f < 65536" "0 \<le> int f" using f by simp_all
  have cc: "int c * int c = int f * int f + 2 * int f + 1"
    and fc: "int f * int c = int f * int f + int f"
    unfolding c by (simp_all add: algebra_simps)
  have e1: "\<bar>to_int (u32 (int L - u32 (int f * int f)))\<bar> = w1"
  proof -
    have "\<bar>to_int (u32 (int L - u32 (int f * int f)))\<bar> = \<bar>int L - int f * int f\<bar>"
      using ib1 ib2 fi by (intro wrapped_difference) linarith+
    then show ?thesis by (simp add: w1_def waste_def)
  qed
  have e2: "\<bar>to_int (u32 (int L - u32 (int c * int c)))\<bar> = w2"
  proof -
    have "\<bar>to_int (u32 (int L - u32 (int c * int c)))\<bar> = \<bar>int L - int c * int c\<bar>"
      using ib1 ib2 fi unfolding cc by (intro wrapped_difference) linarith+
    then show ?thesis by (simp add: w2_def waste_def)
  qed
  have e3: "\<bar>to_int (u32 (int L - u32 (int f * int c)))\<bar> = w3"
  proof -
    have "\<bar>to_int (u32 (int L - u32 (int f * int c)))\<bar> = \<bar>int L - int f * int c\<bar>"
      using ib1 ib2 fi unfolding fc by (intro wrapped_difference) linarith+
    then show ?thesis by (simp add: w3_def waste_def mult.commute)
  qed
  have nsq: "u32 (int f * int f) \<noteq> int L"
  proof -
    have "u32 (int f * int f) = int f * int f" using ib1 small fi by (intro u32_id) auto
    moreover have "int (f * f) \<noteq> int L" using ns unfolding f_def by (simp only: of_nat_eq_iff) simp
    ultimately show ?thesis by simp
  qed
  show ?thesis
    using nsq unfolding bestDimensions_def Let_def f_def[symmetric] c_def[symmetric] e1 e2 e3
    by simp
qed

lemma fs24: "floor_sqrt 24 = 4" by (rule floor_sqrt_unique) simp_all
lemma fs25: "floor_sqrt 25 = 5" by (rule floor_sqrt_unique) simp_all

text \<open>
  Claim C4, as amended.  For every length \<open>L\<close> that fits \<open>hsize\<close>:
  a perfect square \<open>s * s\<close> yields \<open>(s, s)\<close>; otherwise, with \<open>f\<close> and \<open>c\<close> the
  floor and ceiling of the square root, the result is one of the three candidates
  \<open>(f, f)\<close>, \<open>(c, c)\<close>, \<open>(c, f)\<close> (width first) with the least padding waste, where
  \<open>(f, f)\<close> is chosen only when it is strictly best and \<open>(c, f)\<close> wins every tie.
  In particular \<open>bestDimensions 25 = (5, 5)\<close> and \<open>bestDimensions 24 = (5, 5)\<close>.
\<close>

theorem bestDimensions_minimizes:
  assumes "L < 2 ^ 32"
  shows "(\<forall>s. s * s = L \<longrightarrow> bestDimensions L = (s, s))
    \<and> (floor_sqrt L * floor_sqrt L \<noteq> L \<longrightarrow>
        (let f = floor_sqrt L; c = ceil_sqrt L; d = bestDimensions L
         in (d = (f, f) \<or> d = (c, c) \<or> d = (c, f))
            \<and> waste L d \<le> waste L (f, f) \<and> waste L d \<le> waste L (c, c) \<and> waste L d \<le> waste L (c, f)
            \<and> (d = (f, f) \<longleftrightarrow> waste L (f, f) < waste L (c, c) \<and> waste L (f, f) < waste L (c, f))
            \<and> (d = (c, f) \<longleftrightarrow> waste L (c, f) \<le> waste L (f, f) \<and> waste L (c, f) \<le> waste L (c, c))))
    \<and> bestDimensions 25 = (5, 5) \<and> bestDimensions 24 = (5, 5)"
proof (intro conjI allI impI)
  fix s assume "s * s = L"
  with assms show "bestDimensions L = (s, s)" by (rule bestDimensions_square)
next
  assume ns: "floor_sqrt L * floor_sqrt L \<noteq> L"
  have c: "ceil_sqrt L = floor_sqrt L + 1" using ns by (simp add: ceil_sqrt_def Let_def)
  show "let f = floor_sqrt L; c = ceil_sqrt L; d = bestDimensions L
         in (d = (f, f) \<or> d = (c, c) \<or> d = (c, f))
            \<and> waste L d \<le> waste L (f, f) \<and> waste L d \<le> waste L (c, c) \<and> waste L d \<le> waste L (c, f)
            \<and> (d = (f, f) \<longleftrightarrow> waste L (f, f) < waste L (c, c) \<and> waste L (f, f) < waste L (c, f))
            \<and> (d = (c, f) \<longleftrightarrow> waste L (c, f) \<le> waste L (f, f) \<and> waste L (c, f) \<le> waste L (c, c))"
    unfolding Let_def bestDimensions_nonsquare[OF assms ns] c by auto
next
  show "bestDimensions 25 = (5, 5)" by (rule bestDimensions_square) simp_all
next
  have "floor_sqrt 24 * floor_sqrt 24 \<noteq> 24" by (simp add: fs24)
  from bestDimensions_nonsquare[OF _ this] show "bestDimensions 24 = (5, 5)"
    by (simp add: fs24 ceil_sqrt_def waste_def)
qed

theorem bestDimensions_minimizes_witness:
  "bestDimensions 24 = (5, 5) \<and> bestDimensions 25 = (5, 5)
   \<and> waste 24 (bestDimensions 24) = 1 \<and> waste 24 (4, 4) = 8 \<and> waste 24 (5, 4) = 4
   \<and> floor_sqrt 24 = 4 \<and> ceil_sqrt 24 = 5"
  using bestDimensions_minimizes[of 24] by (simp add: fs24 ceil_sqrt_def waste_def)

text \<open>
  The claim as stated lists \<open>(4, 6)\<close> among the candidates for length 24.  That pair
  wastes nothing, while the function returns \<open>(5, 5)\<close> with waste 1: the result does
  not minimise the waste among \<open>(5, 5)\<close>, \<open>(4, 6)\<close>, \<open>(4, 5)\<close>.
\<close>

theorem bestDimensions_24_counterexample:
  "bestDimensions 24 = (5, 5) \<and> waste 24 (5, 5) = 1 \<and> waste 24 (4, 6) = 0
   \<and> \<not> waste 24 (bestDimensions 24) \<le> waste 24 (4, 6)"
proof -
  have "floor_sqrt 24 * floor_sqrt 24 \<noteq> 24" by (simp add: fs24)
  from bestDimensions_nonsquare[OF _ this] have "bestDimensions 24 = (5, 5)"
    by (simp add: fs24 ceil_sqrt_def waste_def)
  then show ?thesis by (simp add: waste_def)
qed

section \<open>Hilbert curves\<close>

text \<open>
  Class \<open>HilbertCurve\<close> derives from \<open>QuasiSquare\<close> (field \<open>base\<close>: height, width,
  origin, orientation) and adds the curve type, the point sequence and the mean
  difference.  \<open>m_mean_difference\<close> is left uninitialised by the constructor; the model
  starts it at 0.
\<close>

record HilbertCurve =
  base :: QuasiSquare
  m_type :: CurveType
  m_curve :: "HPoint list"
  m_mean_difference :: hfloat

definition width :: "HilbertCurve \<Rightarrow> hsize" where
  "width c = qs_m (base c)"

definition height :: "HilbertCurve \<Rightarrow> hsize" where
  "height c = qs_n (base c)"

subsection \<open>Reverse and reflect\<close>

text \<open>
  \<open>swap_range_reverse\<close>: \<open>lenght = first_end - first_beg\<close> times
  \<open>iter_swap(first_beg++, --last_end)\<close>.  Iterators are positions in the list.
\<close>

fun swap_loop :: "nat \<Rightarrow> nat \<Rightarrow> nat \<Rightarrow> 'a list \<Rightarrow> 'a list" where
  "swap_loop 0 first_beg last_end xs = xs"
| "swap_loop (Suc k) first_beg last_end xs =
     swap_loop k (first_beg + 1) (last_end - 1)
       (xs[first_beg := xs ! (last_end - 1), last_end - 1 := xs ! first_beg])"

definition swap_range_reverse :: "nat \<Rightarrow> nat \<Rightarrow> nat \<Rightarrow> nat \<Rightarrow> 'a list \<Rightarrow> 'a list" where
  "swap_range_reverse first_beg first_end last_beg last_end xs =
     swap_loop (first_end - first_beg) first_beg last_end xs"

text \<open>
  The loop of \<open>reverse_parallel\<close> that hands one block pair per iteration to its own
  thread pool.  The blocks are pairwise disjoint and the pool is drained before the
  function returns, so the tasks are run here in the order they are pushed.
\<close>

fun block_loop :: "nat \<Rightarrow> nat \<Rightarrow> nat \<Rightarrow> nat \<Rightarrow> 'a list \<Rightarrow> nat \<times> nat \<times> 'a list" where
  "block_loop 0 block_size start end xs = (start, end, xs)"
| "block_loop (Suc k) block_size start end xs =
     block_loop k block_size (start + block_size) (end - block_size)
       (swap_range_reverse start (start + block_size) (end - block_size) end xs)"

definition reverse_parallel :: "'a list \<Rightarrow> 'a list" where
  "reverse_parallel xs =
    (let lenght = length xs in
     if lenght = 0 then xs
     else
       (let mid_lenght = lenght div 2;
            block_size = 10000
        in if mid_lenght < block_size then rev xs
           else
             (let num_blocks = (mid_lenght + block_size - 1) div block_size;
                  (start, end, ys) = block_loop (num_blocks - 1) block_size 0 lenght xs
              in swap_range_reverse start mid_lenght (lenght - mid_lenght) end ys)))"

definition reverse :: "HilbertCurve \<Rightarrow> HilbertCurve" where
  "reverse c = c\<lparr>m_curve := reverse_parallel (m_curve c)\<rparr>"

text \<open>
  \<open>reflectX\<close> and \<open>reflectY\<close> apply their lambda to every point
  (\<open>for_each_parallel\<close> splits the range in halves that touch different points).
  The new coordinate \<open>m - 1 - p.X() + 2 * coord.X()\<close> is \<open>unsigned int\<close> arithmetic.
\<close>

definition reflectX :: "HilbertCurve \<Rightarrow> HilbertCurve" where
  "reflectX c =
     c\<lparr>m_curve :=
         map (\<lambda>p. p\<lparr>X := nat (u32 (int (qs_m (base c)) - 1 - int (X p)
                                      + 2 * int (X (qs_coord (base c)))))\<rparr>)
             (m_curve c)\<rparr>"

definition reflectY :: "HilbertCurve \<Rightarrow> HilbertCurve" where
  "reflectY c =
     c\<lparr>m_curve :=
         map (\<lambda>p. p\<lparr>Y := nat (u32 (int (qs_n (base c)) - 1 - int (Y p)
                                      + 2 * int (Y (qs_coord (base c)))))\<rparr>)
             (m_curve c)\<rparr>"

definition reflect :: "HilbertCurve \<Rightarrow> HilbertCurve" where
  "reflect c =
     (if qs_oABCD (base c) = A \<or> qs_oABCD (base c) = C then reflectX c else reflectY c)"

definition reflectAndReverse :: "HilbertCurve \<Rightarrow> HilbertCurve" where
  "reflectAndReverse c = reverse (reflect c)"

subsection \<open>Joining four quadrants\<close>

definition joinCurve ::
  "HilbertCurve \<Rightarrow> HilbertCurve \<Rightarrow> HilbertCurve \<Rightarrow> HilbertCurve \<Rightarrow> HilbertCurve \<Rightarrow> HilbertCurve" where
  "joinCurve c cuadrant1 cuadrant2 cuadrant3 cuadrant4 =
     c\<lparr>m_curve :=
         (case qs_oABCD (base c) of
            A \<Rightarrow> m_curve cuadrant1 @ m_curve cuadrant2 @ m_curve cuadrant3 @ m_curve cuadrant4
          | B \<Rightarrow> m_curve cuadrant1 @ m_curve cuadrant4 @ m_curve cuadrant3 @ m_curve cuadrant2
          | C \<Rightarrow> m_curve cuadrant3 @ m_curve cuadrant4 @ m_curve cuadrant1 @ m_curve cuadrant2
          | D \<Rightarrow> m_curve cuadrant3 @ m_curve cuadrant2 @ m_curve cuadrant1 @ m_curve cuadrant4)\<rparr>"

subsection \<open>The productions of the 39 composite curve types\<close>

datatype Transform = NoTransform | Reverse | Reflect | ReflectAndReverse

definition apply_transform :: "Transform \<Rightarrow> HilbertCurve \<Rightarrow> HilbertCurve" where
  "apply_transform t c =
     (case t of NoTransform \<Rightarrow> c | Reverse \<Rightarrow> reverse c | Reflect \<Rightarrow> reflect c
              | ReflectAndReverse \<Rightarrow> reflectAndReverse c)"

text \<open>The orientations \<open>o1, o2, o3, o4\<close> that \<open>BuildCurve<k>H\<close> assigns in its first \<open>switch (oABCD)\<close>, one row per function and orientation.\<close>

fun child_orientations :: "CurveType \<Rightarrow> Orientation \<Rightarrow> Orientation \<times> Orientation \<times> Orientation \<times> Orientation" where
  "child_orientations H1 ori = (case ori of A \<Rightarrow> (D, D, B, B)
      | B \<Rightarrow> (C, A, A, C)
      | C \<Rightarrow> (D, D, B, B)
      | D \<Rightarrow> (C, A, A, C))"
| "child_orientations H2 ori = (case ori of A \<Rightarrow> (C, A, A, C)
      | B \<Rightarrow> (D, D, B, B)
      | C \<Rightarrow> (C, A, A, C)
      | D \<Rightarrow> (D, D, B, B))"
| "child_orientations H3 ori = (case ori of A \<Rightarrow> (C, D, B, C)
      | B \<Rightarrow> (D, D, A, C)
      | C \<Rightarrow> (D, A, A, B)
      | D \<Rightarrow> (C, A, B, B))"
| "child_orientations H4 ori = (case ori of A \<Rightarrow> (B, A, A, C)
      | B \<Rightarrow> (A, D, B, B)
      | C \<Rightarrow> (C, A, D, C)
      | D \<Rightarrow> (D, D, C, B))"
| "child_orientations H5 ori = (case ori of A \<Rightarrow> (C, D, B, B)
      | B \<Rightarrow> (D, A, A, C)
      | C \<Rightarrow> (D, D, A, B)
      | D \<Rightarrow> (C, A, B, C))"
| "child_orientations H6 ori = (case ori of A \<Rightarrow> (C, A, A, C)
      | B \<Rightarrow> (D, D, B, B)
      | C \<Rightarrow> (C, A, A, C)
      | D \<Rightarrow> (D, D, B, B))"
| "child_orientations H7 ori = (case ori of A \<Rightarrow> (C, A, A, D)
      | B \<Rightarrow> (A, D, B, B)
      | C \<Rightarrow> (C, B, A, C)
      | D \<Rightarrow> (D, D, C, B))"
| "child_orientations H8 ori = (case ori of A \<Rightarrow> (B, A, A, D)
      | B \<Rightarrow> (A, C, B, B)
      | C \<Rightarrow> (C, B, D, C)
      | D \<Rightarrow> (D, D, C, A))"
| "child_orientations H9 ori = (case ori of A \<Rightarrow> (D, D, B, B)
      | B \<Rightarrow> (C, A, A, C)
      | C \<Rightarrow> (D, D, B, B)
      | D \<Rightarrow> (C, A, A, C))"
| "child_orientations H10 ori = (case ori of A \<Rightarrow> (C, D, B, C)
      | B \<Rightarrow> (D, D, A, C)
      | C \<Rightarrow> (D, A, A, B)
      | D \<Rightarrow> (C, A, B, B))"
| "child_orientations H11 ori = (case ori of A \<Rightarrow> (C, D, B, B)
      | B \<Rightarrow> (C, D, A, C)
      | C \<Rightarrow> (D, D, A, B)
      | D \<Rightarrow> (C, A, A, B))"
| "child_orientations H12 ori = (case ori of A \<Rightarrow> (B, A, A, D)
      | B \<Rightarrow> (A, C, B, B)
      | C \<Rightarrow> (C, B, D, C)
      | D \<Rightarrow> (D, D, C, A))"
| "child_orientations H13 ori = (case ori of A \<Rightarrow> (D, D, B, B)
      | B \<Rightarrow> (C, A, A, C)
      | C \<Rightarrow> (D, D, B, B)
      | D \<Rightarrow> (C, A, A, C))"
| "child_orientations H14 ori = (case ori of A \<Rightarrow> (B, A, A, D)
      | B \<Rightarrow> (A, C, B, B)
      | C \<Rightarrow> (C, B, D, C)
      | D \<Rightarrow> (D, D, C, A))"
| "child_orientations H15 ori = (case ori of A \<Rightarrow> (D, D, B, C)
      | B \<Rightarrow> (D, A, A, C)
      | C \<Rightarrow> (D, A, B, B)
      | D \<Rightarrow> (C, A, B, C))"
| "child_orientations H16 ori = (case ori of A \<Rightarrow> (B, A, A, C)
      | B \<Rightarrow> (D, C, B, B)
      | C \<Rightarrow> (C, A, D, C)
      | D \<Rightarrow> (D, D, B, A))"
| "child_orientations H17 ori = (case ori of A \<Rightarrow> (D, D, B, B)
      | B \<Rightarrow> (C, A, A, C)
      | C \<Rightarrow> (D, D, B, B)
      | D \<Rightarrow> (C, A, A, C))"
| "child_orientations H18 ori = (case ori of A \<Rightarrow> (B, A, A, D)
      | B \<Rightarrow> (A, C, B, B)
      | C \<Rightarrow> (C, B, D, C)
      | D \<Rightarrow> (D, D, C, A))"
| "child_orientations H19 ori = (case ori of A \<Rightarrow> (C, A, A, C)
      | B \<Rightarrow> (D, D, B, B)
      | C \<Rightarrow> (C, A, A, C)
      | D \<Rightarrow> (D, D, B, B))"
| "child_orientations H20 ori = (case ori of A \<Rightarrow> (B, A, A, C)
      | B \<Rightarrow> (D, C, B, B)
      | C \<Rightarrow> (C, A, D, C)
      | D \<Rightarrow> (D, D, B, A))"
| "child_orientations H21 ori = (case ori of A \<Rightarrow> (C, D, B, C)
      | B \<Rightarrow> (D, D, A, C)
      | C \<Rightarrow> (D, A, A, B)
      | D \<Rightarrow> (C, A, B, B))"
| "child_orientations H22 ori = (case ori of A \<Rightarrow> (D, D, B, B)
      | B \<Rightarrow> (C, A, A, C)
      | C \<Rightarrow> (D, D, B, B)
      | D \<Rightarrow> (C, A, A, C))"
| "child_orientations H23 ori = (case ori of A \<Rightarrow> (D, D, B, C)
      | B \<Rightarrow> (D, A, A, C)
      | C \<Rightarrow> (D, A, B, B)
      | D \<Rightarrow> (C, A, B, C))"
| "child_orientations H24 ori = (case ori of A \<Rightarrow> (C, D, B, B)
      | B \<Rightarrow> (C, D, A, C)
      | C \<Rightarrow> (D, D, A, B)
      | D \<Rightarrow> (C, A, A, B))"
| "child_orientations H25 ori = (case ori of A \<Rightarrow> (D, D, B, C)
      | B \<Rightarrow> (D, A, A, C)
      | C \<Rightarrow> (D, A, B, B)
      | D \<Rightarrow> (C, A, B, C))"
| "child_orientations H26 ori = (case ori of A \<Rightarrow> (D, D, B, B)
      | B \<Rightarrow> (C, A, A, C)
      | C \<Rightarrow> (D, D, B, B)
      | D \<Rightarrow> (C, A, A, C))"
| "child_orientations H27 ori = (case ori of A \<Rightarrow> (C, A, A, C)
      | B \<Rightarrow> (D, D, B, B)
      | C \<Rightarrow> (C, A, A, C)
      | D \<Rightarrow> (D, D, B, B))"
| "child_orientations H28 ori = (case ori of A \<Rightarrow> (C, A, A, D)
      | B \<Rightarrow> (A, D, B, B)
      | C \<Rightarrow> (C, B, A, C)
      | D \<Rightarrow> (D, D, C, B))"
| "child_orientations H29 ori = (case ori of A \<Rightarrow> (B, A, A, C)
      | B \<Rightarrow> (D, D, B, B)
      | C \<Rightarrow> (C, A, D, C)
      | D \<Rightarrow> (D, D, B, A))"
| "child_orientations H30 ori = (case ori of A \<Rightarrow> (B, A, A, D)
      | B \<Rightarrow> (A, C, B, B)
      | C \<Rightarrow> (C, B, D, C)
      | D \<Rightarrow> (D, D, C, A))"
| "child_orientations H31 ori = (case ori of A \<Rightarrow> (C, D, B, C)
      | B \<Rightarrow> (D, D, A, C)
      | C \<Rightarrow> (D, A, A, B)
      | D \<Rightarrow> (C, A, B, B))"
| "child_orientations H32 ori = (case ori of A \<Rightarrow> (C, A, A, C)
      | B \<Rightarrow> (D, D, B, B)
      | C \<Rightarrow> (C, A, A, C)
      | D \<Rightarrow> (D, D, B, B))"
| "child_orientations H33 ori = (case ori of A \<Rightarrow> (C, D, B, C)
      | B \<Rightarrow> (D, D, A, C)
      | C \<Rightarrow> (D, A, A, B)
      | D \<Rightarrow> (C, A, B, B))"
| "child_orientations H34 ori = (case ori of A \<Rightarrow> (C, A, A, C)
      | B \<Rightarrow> (D, D, B, B)
      | C \<Rightarrow> (C, A, A, C)
      | D \<Rightarrow> (D, D, B, B))"
| "child_orientations H35 ori = (case ori of A \<Rightarrow> (D, D, B, C)
      | B \<Rightarrow> (D, A, A, C)
      | C \<Rightarrow> (D, A, B, B)
      | D \<Rightarrow> (C, A, B, C))"
| "child_orientations H36 ori = (case ori of A \<Rightarrow> (B, A, A, C)
      | B \<Rightarrow> (D, C, B, B)
      | C \<Rightarrow> (C, A, D, C)
      | D \<Rightarrow> (D, D, B, A))"
| "child_orientations H37 ori = (case ori of A \<Rightarrow> (C, D, B, C)
      | B \<Rightarrow> (D, D, A, C)
      | C \<Rightarrow> (D, A, A, B)
      | D \<Rightarrow> (C, A, B, B))"
| "child_orientations H38 ori = (case ori of A \<Rightarrow> (B, A, A, C)
      | B \<Rightarrow> (D, C, B, B)
      | C \<Rightarrow> (C, A, D, C)
      | D \<Rightarrow> (D, D, B, A))"
| "child_orientations H39 ori = (case ori of A \<Rightarrow> (D, D, B, C)
      | B \<Rightarrow> (D, A, A, C)
      | C \<Rightarrow> (D, A, B, B)
      | D \<Rightarrow> (C, A, B, C))"

text \<open>The curve types of the four quadrants: the constants written in the constructor calls of \<open>BuildCurve1H\<close> to \<open>BuildCurve11H\<close>, the variables \<open>t1, t2, t3, t4\<close> set in the \<open>switch\<close> of the later ones.\<close>

fun child_types :: "CurveType \<Rightarrow> Orientation \<Rightarrow> CurveType \<times> CurveType \<times> CurveType \<times> CurveType" where
  "child_types H1 ori = (case ori of A \<Rightarrow> (H0, H0, H0, H0)
      | B \<Rightarrow> (H0, H0, H0, H0)
      | C \<Rightarrow> (H0, H0, H0, H0)
      | D \<Rightarrow> (H0, H0, H0, H0))"
| "child_types H2 ori = (case ori of A \<Rightarrow> (H0, H0, H0, H0)
      | B \<Rightarrow> (H0, H0, H0, H0)
      | C \<Rightarrow> (H0, H0, H0, H0)
      | D \<Rightarrow> (H0, H0, H0, H0))"
| "child_types H3 ori = (case ori of A \<Rightarrow> (H0, H0, H0, H0)
      | B \<Rightarrow> (H0, H0, H0, H0)
      | C \<Rightarrow> (H0, H0, H0, H0)
      | D \<Rightarrow> (H0, H0, H0, H0))"
| "child_types H4 ori = (case ori of A \<Rightarrow> (H0, H0, H0, H0)
      | B \<Rightarrow> (H0, H0, H0, H0)
      | C \<Rightarrow> (H0, H0, H0, H0)
      | D \<Rightarrow> (H0, H0, H0, H0))"
| "child_types H5 ori = (case ori of A \<Rightarrow> (H0, H0, H0, H0)
      | B \<Rightarrow> (H0, H0, H0, H0)
      | C \<Rightarrow> (H0, H0, H0, H0)
      | D \<Rightarrow> (H0, H0, H0, H0))"
| "child_types H6 ori = (case ori of A \<Rightarrow> (H5, H5, H5, H5)
      | B \<Rightarrow> (H5, H5, H5, H5)
      | C \<Rightarrow> (H5, H5, H5, H5)
      | D \<Rightarrow> (H5, H5, H5, H5))"
| "child_types H7 ori = (case ori of A \<Rightarrow> (H5, H5, H5, H5)
      | B \<Rightarrow> (H5, H5, H5, H5)
      | C \<Rightarrow> (H5, H5, H5, H5)
      | D \<Rightarrow> (H5, H5, H5, H5))"
| "child_types H8 ori = (case ori of A \<Rightarrow> (H5, H5, H5, H5)
      | B \<Rightarrow> (H5, H5, H5, H5)
      | C \<Rightarrow> (H5, H5, H5, H5)
      | D \<Rightarrow> (H5, H5, H5, H5))"
| "child_types H9 ori = (case ori of A \<Rightarrow> (H5, H5, H5, H5)
      | B \<Rightarrow> (H5, H5, H5, H5)
      | C \<Rightarrow> (H5, H5, H5, H5)
      | D \<Rightarrow> (H5, H5, H5, H5))"
| "child_types H10 ori = (case ori of A \<Rightarrow> (H5, H5, H5, H5)
      | B \<Rightarrow> (H5, H5, H5, H5)
      | C \<Rightarrow> (H5, H5, H5, H5)
      | D \<Rightarrow> (H5, H5, H5, H5))"
| "child_types H11 ori = (case ori of A \<Rightarrow> (H5, H5, H5, H5)
      | B \<Rightarrow> (H5, H5, H5, H5)
      | C \<Rightarrow> (H5, H5, H5, H5)
      | D \<Rightarrow> (H5, H5, H5, H5))"
| "child_types H12 ori = (case ori of A \<Rightarrow> (H3, H5, H5, H3)
      | B \<Rightarrow> (H3, H3, H5, H5)
      | C \<Rightarrow> (H5, H3, H3, H5)
      | D \<Rightarrow> (H5, H5, H3, H3))"
| "child_types H13 ori = (case ori of A \<Rightarrow> (H3, H5, H5, H3)
      | B \<Rightarrow> (H3, H3, H5, H5)
      | C \<Rightarrow> (H5, H3, H3, H5)
      | D \<Rightarrow> (H5, H5, H3, H3))"
| "child_types H14 ori = (case ori of A \<Rightarrow> (H3, H5, H5, H5)
      | B \<Rightarrow> (H5, H3, H5, H5)
      | C \<Rightarrow> (H5, H5, H3, H5)
      | D \<Rightarrow> (H5, H5, H5, H3))"
| "child_types H15 ori = (case ori of A \<Rightarrow> (H3, H5, H5, H5)
      | B \<Rightarrow> (H5, H3, H5, H5)
      | C \<Rightarrow> (H5, H5, H3, H5)
      | D \<Rightarrow> (H5, H5, H5, H3))"
| "child_types H16 ori = (case ori of A \<Rightarrow> (H3, H5, H5, H5)
      | B \<Rightarrow> (H5, H3, H5, H5)
      | C \<Rightarrow> (H5, H5, H3, H5)
      | D \<Rightarrow> (H5, H5, H5, H3))"
| "child_types H17 ori = (case ori of A \<Rightarrow> (H3, H5, H5, H5)
      | B \<Rightarrow> (H5, H3, H5, H5)
      | C \<Rightarrow> (H5, H5, H3, H5)
      | D \<Rightarrow> (H5, H5, H5, H3))"
| "child_types H18 ori = (case ori of A \<Rightarrow> (H4, H0, H0, H4)
      | B \<Rightarrow> (H4, H4, H0, H0)
      | C \<Rightarrow> (H0, H4, H4, H0)
      | D \<Rightarrow> (H0, H0, H4, H4))"
| "child_types H19 ori = (case ori of A \<Rightarrow> (H4, H0, H0, H4)
      | B \<Rightarrow> (H4, H4, H0, H0)
      | C \<Rightarrow> (H0, H4, H4, H0)
      | D \<Rightarrow> (H0, H0, H4, H4))"
| "child_types H20 ori = (case ori of A \<Rightarrow> (H4, H0, H0, H4)
      | B \<Rightarrow> (H4, H4, H0, H0)
      | C \<Rightarrow> (H0, H4, H4, H0)
      | D \<Rightarrow> (H0, H0, H4, H4))"
| "child_types H21 ori = (case ori of A \<Rightarrow> (H4, H0, H0, H4)
      | B \<Rightarrow> (H4, H4, H0, H0)
      | C \<Rightarrow> (H0, H4, H4, H0)
      | D \<Rightarrow> (H0, H0, H4, H4))"
| "child_types H22 ori = (case ori of A \<Rightarrow> (H4, H0, H0, H4)
      | B \<Rightarrow> (H4, H4, H0, H0)
      | C \<Rightarrow> (H0, H4, H4, H0)
      | D \<Rightarrow> (H0, H0, H4, H4))"
| "child_types H23 ori = (case ori of A \<Rightarrow> (H4, H0, H0, H4)
      | B \<Rightarrow> (H4, H4, H0, H0)
      | C \<Rightarrow> (H0, H4, H4, H0)
      | D \<Rightarrow> (H0, H0, H4, H4))"
| "child_types H24 ori = (case ori of A \<Rightarrow> (H0, H0, H0, H4)
      | B \<Rightarrow> (H4, H0, H0, H0)
      | C \<Rightarrow> (H0, H4, H0, H0)
      | D \<Rightarrow> (H0, H0, H4, H0))"
| "child_types H25 ori = (case ori of A \<Rightarrow> (H0, H0, H0, H4)
      | B \<Rightarrow> (H4, H0, H0, H0)
      | C \<Rightarrow> (H0, H4, H0, H0)
      | D \<Rightarrow> (H0, H0, H4, H0))"
| "child_types H26 ori = (case ori of A \<Rightarrow> (H0, H0, H0, H4)
      | B \<Rightarrow> (H4, H0, H0, H0)
      | C \<Rightarrow> (H0, H4, H0, H0)
      | D \<Rightarrow> (H0, H0, H4, H0))"
| "child_types H27 ori = (case ori of A \<Rightarrow> (H0, H0, H0, H4)
      | B \<Rightarrow> (H4, H0, H0, H0)
      | C \<Rightarrow> (H0, H4, H0, H0)
      | D \<Rightarrow> (H0, H0, H4, H0))"
| "child_types H28 ori = (case ori of A \<Rightarrow> (H0, H0, H0, H4)
      | B \<Rightarrow> (H4, H0, H0, H0)
      | C \<Rightarrow> (H0, H4, H0, H0)
      | D \<Rightarrow> (H0, H0, H4, H0))"
| "child_types H29 ori = (case ori of A \<Rightarrow> (H0, H0, H0, H4)
      | B \<Rightarrow> (H4, H0, H0, H0)
      | C \<Rightarrow> (H0, H4, H0, H0)
      | D \<Rightarrow> (H0, H0, H4, H0))"
| "child_types H30 ori = (case ori of A \<Rightarrow> (H0, H0, H0, H4)
      | B \<Rightarrow> (H4, H0, H0, H0)
      | C \<Rightarrow> (H0, H4, H0, H0)
      | D \<Rightarrow> (H0, H0, H4, H0))"
| "child_types H31 ori = (case ori of A \<Rightarrow> (H0, H0, H0, H4)
      | B \<Rightarrow> (H4, H0, H0, H0)
      | C \<Rightarrow> (H0, H4, H0, H0)
      | D \<Rightarrow> (H0, H0, H4, H0))"
| "child_types H32 ori = (case ori of A \<Rightarrow> (H1, H5, H5, H1)
      | B \<Rightarrow> (H1, H1, H5, H5)
      | C \<Rightarrow> (H5, H1, H1, H5)
      | D \<Rightarrow> (H5, H5, H1, H1))"
| "child_types H33 ori = (case ori of A \<Rightarrow> (H1, H5, H5, H1)
      | B \<Rightarrow> (H1, H1, H5, H5)
      | C \<Rightarrow> (H5, H1, H1, H5)
      | D \<Rightarrow> (H5, H5, H1, H1))"
| "child_types H34 ori = (case ori of A \<Rightarrow> (H5, H5, H5, H1)
      | B \<Rightarrow> (H1, H5, H5, H5)
      | C \<Rightarrow> (H5, H1, H5, H5)
      | D \<Rightarrow> (H5, H5, H1, H5))"
| "child_types H35 ori = (case ori of A \<Rightarrow> (H5, H5, H5, H1)
      | B \<Rightarrow> (H1, H5, H5, H5)
      | C \<Rightarrow> (H5, H1, H5, H5)
      | D \<Rightarrow> (H5, H5, H1, H5))"
| "child_types H36 ori = (case ori of A \<Rightarrow> (H5, H5, H5, H1)
      | B \<Rightarrow> (H1, H5, H5, H5)
      | C \<Rightarrow> (H5, H1, H5, H5)
      | D \<Rightarrow> (H5, H5, H1, H5))"
| "child_types H37 ori = (case ori of A \<Rightarrow> (H5, H5, H5, H1)
      | B \<Rightarrow> (H1, H5, H5, H5)
      | C \<Rightarrow> (H5, H1, H5, H5)
      | D \<Rightarrow> (H5, H5, H1, H5))"
| "child_types H38 ori = (case ori of A \<Rightarrow> (H3, H5, H5, H1)
      | B \<Rightarrow> (H1, H3, H5, H5)
      | C \<Rightarrow> (H5, H1, H3, H5)
      | D \<Rightarrow> (H5, H5, H1, H3))"
| "child_types H39 ori = (case ori of A \<Rightarrow> (H3, H5, H5, H1)
      | B \<Rightarrow> (H1, H3, H5, H5)
      | C \<Rightarrow> (H5, H1, H3, H5)
      | D \<Rightarrow> (H5, H5, H1, H3))"

text \<open>The member function called on each quadrant between its construction and \<open>joinCurve\<close>, unconditionally or in the second \<open>switch (oABCD)\<close>.  No quadrant gets more than one call, and calls on different quadrants touch different objects, so the order of the statements does not matter.\<close>

fun child_transforms :: "CurveType \<Rightarrow> Orientation \<Rightarrow> Transform \<times> Transform \<times> Transform \<times> Transform" where
  "child_transforms H1 ori = (case ori of A \<Rightarrow> (Reverse, Reverse, Reverse, Reverse)
      | B \<Rightarrow> (Reverse, Reverse, Reverse, Reverse)
      | C \<Rightarrow> (Reverse, Reverse, Reverse, Reverse)
      | D \<Rightarrow> (Reverse, Reverse, Reverse, Reverse))"
| "child_transforms H2 ori = (case ori of A \<Rightarrow> (NoTransform, NoTransform, NoTransform, NoTransform)
      | B \<Rightarrow> (NoTransform, NoTransform, NoTransform, NoTransform)
      | C \<Rightarrow> (NoTransform, NoTransform, NoTransform, NoTransform)
      | D \<Rightarrow> (NoTransform, NoTransform, NoTransform, NoTransform))"
| "child_transforms H3 ori = (case ori of A \<Rightarrow> (Reverse, Reverse, Reverse, Reverse)
      | B \<Rightarrow> (Reverse, Reverse, Reverse, Reverse)
      | C \<Rightarrow> (Reverse, Reverse, Reverse, Reverse)
      | D \<Rightarrow> (Reverse, Reverse, Reverse, Reverse))"
| "child_transforms H4 ori = (case ori of A \<Rightarrow> (NoTransform, NoTransform, NoTransform, NoTransform)
      | B \<Rightarrow> (NoTransform, NoTransform, NoTransform, NoTransform)
      | C \<Rightarrow> (NoTransform, NoTransform, NoTransform, NoTransform)
      | D \<Rightarrow> (NoTransform, NoTransform, NoTransform, NoTransform))"
| "child_transforms H5 ori = (case ori of A \<Rightarrow> (Reverse, Reverse, Reverse, Reverse)
      | B \<Rightarrow> (Reverse, Reverse, Reverse, Reverse)
      | C \<Rightarrow> (Reverse, Reverse, Reverse, Reverse)
      | D \<Rightarrow> (Reverse, Reverse, Reverse, Reverse))"
| "child_transforms H6 ori = (case ori of A \<Rightarrow> (NoTransform, ReflectAndReverse, NoTransform, ReflectAndReverse)
      | B \<Rightarrow> (NoTransform, ReflectAndReverse, NoTransform, ReflectAndReverse)
      | C \<Rightarrow> (NoTransform, ReflectAndReverse, NoTransform, ReflectAndReverse)
      | D \<Rightarrow> (NoTransform, ReflectAndReverse, NoTransform, ReflectAndReverse))"
| "child_transforms H7 ori = (case ori of A \<Rightarrow> (NoTransform, ReflectAndReverse, NoTransform, NoTransform)
      | B \<Rightarrow> (ReflectAndReverse, ReflectAndReverse, NoTransform, ReflectAndReverse)
      | C \<Rightarrow> (NoTransform, NoTransform, NoTransform, ReflectAndReverse)
      | D \<Rightarrow> (NoTransform, ReflectAndReverse, ReflectAndReverse, ReflectAndReverse))"
| "child_transforms H8 ori = (case ori of A \<Rightarrow> (ReflectAndReverse, ReflectAndReverse, NoTransform, NoTransform)
      | B \<Rightarrow> (ReflectAndReverse, NoTransform, NoTransform, ReflectAndReverse)
      | C \<Rightarrow> (NoTransform, NoTransform, ReflectAndReverse, ReflectAndReverse)
      | D \<Rightarrow> (NoTransform, ReflectAndReverse, ReflectAndReverse, NoTransform))"
| "child_transforms H9 ori = (case ori of A \<Rightarrow> (Reverse, Reflect, Reverse, Reflect)
      | B \<Rightarrow> (Reverse, Reflect, Reverse, Reflect)
      | C \<Rightarrow> (Reverse, Reflect, Reverse, Reflect)
      | D \<Rightarrow> (Reverse, Reflect, Reverse, Reflect))"
| "child_transforms H10 ori = (case ori of A \<Rightarrow> (Reflect, Reflect, Reverse, Reverse)
      | B \<Rightarrow> (Reflect, Reverse, Reverse, Reflect)
      | C \<Rightarrow> (Reverse, Reverse, Reflect, Reflect)
      | D \<Rightarrow> (Reverse, Reflect, Reflect, Reverse))"
| "child_transforms H11 ori = (case ori of A \<Rightarrow> (Reflect, Reflect, Reverse, Reflect)
      | B \<Rightarrow> (Reverse, Reverse, Reverse, Reflect)
      | C \<Rightarrow> (Reverse, Reflect, Reflect, Reflect)
      | D \<Rightarrow> (Reverse, Reflect, Reverse, Reverse))"
| "child_transforms H12 ori = (case ori of A \<Rightarrow> (NoTransform, ReflectAndReverse, NoTransform, NoTransform)
      | B \<Rightarrow> (NoTransform, NoTransform, NoTransform, ReflectAndReverse)
      | C \<Rightarrow> (NoTransform, NoTransform, NoTransform, ReflectAndReverse)
      | D \<Rightarrow> (NoTransform, ReflectAndReverse, NoTransform, NoTransform))"
| "child_transforms H13 ori = (case ori of A \<Rightarrow> (Reverse, Reflect, Reverse, Reverse)
      | B \<Rightarrow> (Reverse, Reverse, Reverse, Reflect)
      | C \<Rightarrow> (Reverse, Reverse, Reverse, Reflect)
      | D \<Rightarrow> (Reverse, Reflect, Reverse, Reverse))"
| "child_transforms H14 ori = (case ori of A \<Rightarrow> (NoTransform, ReflectAndReverse, NoTransform, NoTransform)
      | B \<Rightarrow> (ReflectAndReverse, NoTransform, NoTransform, ReflectAndReverse)
      | C \<Rightarrow> (NoTransform, NoTransform, NoTransform, ReflectAndReverse)
      | D \<Rightarrow> (NoTransform, ReflectAndReverse, ReflectAndReverse, NoTransform))"
| "child_transforms H15 ori = (case ori of A \<Rightarrow> (Reverse, Reflect, Reverse, Reverse)
      | B \<Rightarrow> (Reflect, Reverse, Reverse, Reflect)
      | C \<Rightarrow> (Reverse, Reverse, Reverse, Reflect)
      | D \<Rightarrow> (Reverse, Reflect, Reflect, Reverse))"
| "child_transforms H16 ori = (case ori of A \<Rightarrow> (NoTransform, ReflectAndReverse, NoTransform, ReflectAndReverse)
      | B \<Rightarrow> (NoTransform, NoTransform, NoTransform, ReflectAndReverse)
      | C \<Rightarrow> (NoTransform, ReflectAndReverse, NoTransform, ReflectAndReverse)
      | D \<Rightarrow> (NoTransform, ReflectAndReverse, NoTransform, NoTransform))"
| "child_transforms H17 ori = (case ori of A \<Rightarrow> (Reverse, Reflect, Reverse, Reflect)
      | B \<Rightarrow> (Reverse, Reverse, Reverse, Reflect)
      | C \<Rightarrow> (Reverse, Reflect, Reverse, Reflect)
      | D \<Rightarrow> (Reverse, Reflect, Reverse, Reverse))"
| "child_transforms H18 ori = (case ori of A \<Rightarrow> (ReflectAndReverse, NoTransform, NoTransform, NoTransform)
      | B \<Rightarrow> (ReflectAndReverse, NoTransform, NoTransform, NoTransform)
      | C \<Rightarrow> (NoTransform, NoTransform, ReflectAndReverse, NoTransform)
      | D \<Rightarrow> (NoTransform, NoTransform, ReflectAndReverse, NoTransform))"
| "child_transforms H19 ori = (case ori of A \<Rightarrow> (ReflectAndReverse, NoTransform, NoTransform, NoTransform)
      | B \<Rightarrow> (ReflectAndReverse, NoTransform, NoTransform, NoTransform)
      | C \<Rightarrow> (NoTransform, NoTransform, ReflectAndReverse, NoTransform)
      | D \<Rightarrow> (NoTransform, NoTransform, ReflectAndReverse, NoTransform))"
| "child_transforms H20 ori = (case ori of A \<Rightarrow> (ReflectAndReverse, NoTransform, NoTransform, NoTransform)
      | B \<Rightarrow> (ReflectAndReverse, NoTransform, NoTransform, NoTransform)
      | C \<Rightarrow> (NoTransform, NoTransform, ReflectAndReverse, NoTransform)
      | D \<Rightarrow> (NoTransform, NoTransform, ReflectAndReverse, NoTransform))"
| "child_transforms H21 ori = (case ori of A \<Rightarrow> (Reverse, Reverse, Reverse, Reflect)
      | B \<Rightarrow> (Reverse, Reflect, Reverse, Reverse)
      | C \<Rightarrow> (Reverse, Reflect, Reverse, Reverse)
      | D \<Rightarrow> (Reverse, Reverse, Reverse, Reflect))"
| "child_transforms H22 ori = (case ori of A \<Rightarrow> (Reverse, Reverse, Reverse, Reflect)
      | B \<Rightarrow> (Reverse, Reflect, Reverse, Reverse)
      | C \<Rightarrow> (Reverse, Reflect, Reverse, Reverse)
      | D \<Rightarrow> (Reverse, Reverse, Reverse, Reflect))"
| "child_transforms H23 ori = (case ori of A \<Rightarrow> (Reverse, Reverse, Reverse, Reflect)
      | B \<Rightarrow> (Reverse, Reflect, Reverse, Reverse)
      | C \<Rightarrow> (Reverse, Reflect, Reverse, Reverse)
      | D \<Rightarrow> (Reverse, Reverse, Reverse, Reflect))"
| "child_transforms H24 ori = (case ori of A \<Rightarrow> (Reverse, Reverse, Reverse, Reflect)
      | B \<Rightarrow> (Reverse, Reverse, Reverse, Reverse)
      | C \<Rightarrow> (Reverse, Reflect, Reverse, Reverse)
      | D \<Rightarrow> (Reverse, Reverse, Reverse, Reverse))"
| "child_transforms H25 ori = (case ori of A \<Rightarrow> (Reverse, Reverse, Reverse, Reflect)
      | B \<Rightarrow> (Reverse, Reverse, Reverse, Reverse)
      | C \<Rightarrow> (Reverse, Reflect, Reverse, Reverse)
      | D \<Rightarrow> (Reverse, Reverse, Reverse, Reverse))"
| "child_transforms H26 ori = (case ori of A \<Rightarrow> (Reverse, Reverse, Reverse, Reflect)
      | B \<Rightarrow> (Reverse, Reverse, Reverse, Reverse)
      | C \<Rightarrow> (Reverse, Reflect, Reverse, Reverse)
      | D \<Rightarrow> (Reverse, Reverse, Reverse, Reverse))"
| "child_transforms H27 ori = (case ori of A \<Rightarrow> (NoTransform, NoTransform, NoTransform, NoTransform)
      | B \<Rightarrow> (ReflectAndReverse, NoTransform, NoTransform, NoTransform)
      | C \<Rightarrow> (NoTransform, NoTransform, NoTransform, NoTransform)
      | D \<Rightarrow> (NoTransform, NoTransform, ReflectAndReverse, NoTransform))"
| "child_transforms H28 ori = (case ori of A \<Rightarrow> (NoTransform, NoTransform, NoTransform, NoTransform)
      | B \<Rightarrow> (ReflectAndReverse, NoTransform, NoTransform, NoTransform)
      | C \<Rightarrow> (NoTransform, NoTransform, NoTransform, NoTransform)
      | D \<Rightarrow> (NoTransform, NoTransform, ReflectAndReverse, NoTransform))"
| "child_transforms H29 ori = (case ori of A \<Rightarrow> (NoTransform, NoTransform, NoTransform, NoTransform)
      | B \<Rightarrow> (ReflectAndReverse, NoTransform, NoTransform, NoTransform)
      | C \<Rightarrow> (NoTransform, NoTransform, NoTransform, NoTransform)
      | D \<Rightarrow> (NoTransform, NoTransform, ReflectAndReverse, NoTransform))"
| "child_transforms H30 ori = (case ori of A \<Rightarrow> (NoTransform, NoTransform, NoTransform, NoTransform)
      | B \<Rightarrow> (ReflectAndReverse, NoTransform, NoTransform, NoTransform)
      | C \<Rightarrow> (NoTransform, NoTransform, NoTransform, NoTransform)
      | D \<Rightarrow> (NoTransform, NoTransform, ReflectAndReverse, NoTransform))"
| "child_transforms H31 ori = (case ori of A \<Rightarrow> (Reverse, Reverse, Reverse, Reflect)
      | B \<Rightarrow> (Reverse, Reverse, Reverse, Reverse)
      | C \<Rightarrow> (Reverse, Reflect, Reverse, Reverse)
      | D \<Rightarrow> (Reverse, Reverse, Reverse, Reverse))"
| "child_transforms H32 ori = (case ori of A \<Rightarrow> (NoTransform, ReflectAndReverse, NoTransform, NoTransform)
      | B \<Rightarrow> (NoTransform, NoTransform, NoTransform, ReflectAndReverse)
      | C \<Rightarrow> (NoTransform, NoTransform, NoTransform, ReflectAndReverse)
      | D \<Rightarrow> (NoTransform, ReflectAndReverse, NoTransform, NoTransform))"
| "child_transforms H33 ori = (case ori of A \<Rightarrow> (Reverse, Reflect, Reverse, Reverse)
      | B \<Rightarrow> (Reverse, Reverse, Reverse, Reflect)
      | C \<Rightarrow> (Reverse, Reverse, Reverse, Reflect)
      | D \<Rightarrow> (Reverse, Reflect, Reverse, Reverse))"
| "child_transforms H34 ori = (case ori of A \<Rightarrow> (NoTransform, ReflectAndReverse, NoTransform, NoTransform)
      | B \<Rightarrow> (NoTransform, ReflectAndReverse, NoTransform, ReflectAndReverse)
      | C \<Rightarrow> (NoTransform, NoTransform, NoTransform, ReflectAndReverse)
      | D \<Rightarrow> (NoTransform, ReflectAndReverse, NoTransform, ReflectAndReverse))"
| "child_transforms H35 ori = (case ori of A \<Rightarrow> (Reverse, Reflect, Reverse, Reverse)
      | B \<Rightarrow> (Reverse, Reflect, Reverse, Reflect)
      | C \<Rightarrow> (Reverse, Reverse, Reverse, Reflect)
      | D \<Rightarrow> (Reverse, Reflect, Reverse, Reflect))"
| "child_transforms H36 ori = (case ori of A \<Rightarrow> (ReflectAndReverse, ReflectAndReverse, NoTransform, NoTransform)
      | B \<Rightarrow> (NoTransform, NoTransform, NoTransform, ReflectAndReverse)
      | C \<Rightarrow> (NoTransform, NoTransform, ReflectAndReverse, ReflectAndReverse)
      | D \<Rightarrow> (NoTransform, ReflectAndReverse, NoTransform, NoTransform))"
| "child_transforms H37 ori = (case ori of A \<Rightarrow> (Reflect, Reflect, Reverse, Reverse)
      | B \<Rightarrow> (Reverse, Reverse, Reverse, Reflect)
      | C \<Rightarrow> (Reverse, Reverse, Reflect, Reflect)
      | D \<Rightarrow> (Reverse, Reflect, Reverse, Reverse))"
| "child_transforms H38 ori = (case ori of A \<Rightarrow> (NoTransform, ReflectAndReverse, NoTransform, NoTransform)
      | B \<Rightarrow> (NoTransform, NoTransform, NoTransform, ReflectAndReverse)
      | C \<Rightarrow> (NoTransform, NoTransform, NoTransform, ReflectAndReverse)
      | D \<Rightarrow> (NoTransform, ReflectAndReverse, NoTransform, NoTransform))"
| "child_transforms H39 ori = (case ori of A \<Rightarrow> (Reverse, Reflect, Reverse, Reverse)
      | B \<Rightarrow> (Reverse, Reverse, Reverse, Reflect)
      | C \<Rightarrow> (Reverse, Reverse, Reverse, Reflect)
      | D \<Rightarrow> (Reverse, Reflect, Reverse, Reverse))"

subsection \<open>Building a curve\<close>

text \<open>
  The member initialisers of the constructor
  \<open>HilbertCurve(width, height, type, coord, orientation, differenceCurve)\<close>:
  the base is \<open>QuasiSquare(height, width, coord, orientation)\<close>.
\<close>

definition init_curve ::
  "hsize \<Rightarrow> hsize \<Rightarrow> CurveType \<Rightarrow> HPoint \<Rightarrow> Orientation \<Rightarrow> HilbertCurve" where
  "init_curve w h t coord ori =
     \<lparr>base = QuasiSquare h w coord ori, m_type = t, m_curve = [], m_mean_difference = 0\<rparr>"

text \<open>
  \<open>BuildCurveH0\<close>: \<open>m_curve.assign(n * m, 0)\<close> fills the vector with \<open>HPoint(0)\<close>
  (the product is an \<open>unsigned int\<close>),
  then \<open>BuildCurve(m_curve, 0)\<close> and the pool is drained.
\<close>

definition BuildCurveH0 :: "HilbertCurve \<Rightarrow> HilbertCurve" where
  "BuildCurveH0 c =
     c\<lparr>m_curve := BuildCurve (base c)
                     (replicate (umul (qs_n (base c)) (qs_m (base c))) (HPoint2 0 0)) 0\<rparr>"

text \<open>The nesting depth of the productions: the measure of \<open>Build\<close>.\<close>

definition rank :: "CurveType \<Rightarrow> nat" where
  "rank t = (if t = H0 then 0 else if t \<in> {H1, H2, H3, H4, H5} then 1 else 2)"

text \<open>
  \<open>HilbertCurve::Build\<close> dispatches on the type to \<open>BuildCurveH0\<close> or to one of
  \<open>BuildCurve1H\<close> ... \<open>BuildCurve39H\<close>.  The latter share one body and differ in the
  three tables above.  A quadrant is constructed with \<open>differenceCurve = false\<close>, so
  its constructor only runs \<open>Build\<close>.
\<close>

function Build :: "HilbertCurve \<Rightarrow> HilbertCurve" where
  "Build c =
    (if m_type c = H0 then BuildCurveH0 c
     else
       (let w2 = width c div 2; w1 = width c - w2;
            h2 = height c div 2; h1 = height c - h2;
            coord = qs_coord (base c);
            os = child_orientations (m_type c) (qs_oABCD (base c));
            ts = child_types (m_type c) (qs_oABCD (base c));
            fs = child_transforms (m_type c) (qs_oABCD (base c));
            cuadrant1 = Build (init_curve w1 h1 (fst ts) (hp_plus coord (HPoint2 0 0)) (fst os));
            cuadrant2 = Build (init_curve w1 h2 (fst (snd ts)) (hp_plus coord (HPoint2 0 h1))
                                  (fst (snd os)));
            cuadrant3 = Build (init_curve w2 h2 (fst (snd (snd ts))) (hp_plus coord (HPoint2 w1 h1))
                                  (fst (snd (snd os))));
            cuadrant4 = Build (init_curve w2 h1 (snd (snd (snd ts))) (hp_plus coord (HPoint2 w1 0))
                                  (snd (snd (snd os))))
        in joinCurve c
             (apply_transform (fst fs) cuadrant1)
             (apply_transform (fst (snd fs)) cuadrant2)
             (apply_transform (fst (snd (snd fs))) cuadrant3)
             (apply_transform (snd (snd (snd fs))) cuadrant4)))"
  by pat_completeness auto

lemma child_types_rank:
  assumes "t \<noteq> H0"
  shows "rank (fst (child_types t ori)) < rank t \<and> rank (fst (snd (child_types t ori))) < rank t
       \<and> rank (fst (snd (snd (child_types t ori)))) < rank t
       \<and> rank (snd (snd (snd (child_types t ori)))) < rank t"
  using assms by (cases t; cases ori; simp add: rank_def)

termination Build
proof (relation "measure (\<lambda>c. rank (m_type c))", goal_cases)
  case 1
  show ?case by simp
next
  case (2 c w2 w1 h2 h1 coord os ts)
  then show ?case using child_types_rank[of "m_type c"] by (simp add: init_curve_def)
next
  case (3 c w2 w1 h2 h1 coord os ts fs cuadrant1)
  then show ?case using child_types_rank[of "m_type c"] by (simp add: init_curve_def)
next
  case (4 c w2 w1 h2 h1 coord os ts fs cuadrant1 cuadrant2)
  then show ?case using child_types_rank[of "m_type c"] by (simp add: init_curve_def)
next
  case (5 c w2 w1 h2 h1 coord os ts fs cuadrant1 cuadrant2 cuadrant3)
  then show ?case using child_types_rank[of "m_type c"] by (simp add: init_curve_def)
qed

declare Build.simps [simp del]

subsection \<open>The difference map\<close>

text \<open>
  The positions in the raster-sorted vector of the neighbours of cell \<open>(i, j)\<close> that
  exist, in the order of the eight tests of \<open>BuildDifference\<close>: right, left, up, down,
  right up, left up, right down, left down.  \<open>width - 1\<close> and \<open>height - 1\<close> are
  \<open>unsigned int\<close> differences; the loop counters \<open>i\<close>, \<open>j\<close> and the positions are
  \<open>size_type\<close> values of 64 bits, which products and sums of 32-bit values do not
  exceed, and \<open>i - 1\<close>, \<open>j - 1\<close> are only formed when \<open>i > 0\<close>, \<open>j > 0\<close>.
\<close>

definition neighbour_positions :: "hsize \<Rightarrow> hsize \<Rightarrow> nat \<Rightarrow> nat \<Rightarrow> nat list" where
  "neighbour_positions w h i j =
     (if i < usub w 1 then [j * w + i + 1] else []) @
     (if i > 0 then [j * w + i - 1] else []) @
     (if j < usub h 1 then [(j + 1) * w + i] else []) @
     (if j > 0 then [(j - 1) * w + i] else []) @
     (if i < usub w 1 \<and> j < usub h 1 then [(j + 1) * w + i + 1] else []) @
     (if i > 0 \<and> j < usub h 1 then [(j + 1) * w + i - 1] else []) @
     (if i < usub w 1 \<and> j > 0 then [(j - 1) * w + i + 1] else []) @
     (if i > 0 \<and> j > 0 then [(j - 1) * w + i - 1] else [])"

text \<open>
  One iteration of the inner loop: \<open>dif\<close> sums \<open>fabs(p - index)\<close> over the neighbours
  present, \<open>count\<close> counts them, the cell gets \<open>val = dif / count\<close>, and the running
  mean is updated with \<open>delta / ++k\<close>.  The state is the vector, \<open>mean\<close> and \<open>k\<close>.
  (Only the 1 x 1 curve has a cell without neighbours; there the source divides 0.0 by
  0, which is NaN, and the model's value 0 does not describe it.)
\<close>

definition difference_step ::
  "hsize \<Rightarrow> hsize \<Rightarrow> nat \<times> nat \<Rightarrow> HPoint list \<times> hfloat \<times> nat \<Rightarrow> HPoint list \<times> hfloat \<times> nat" where
  "difference_step w h ji s =
     (let j = fst ji; i = snd ji;
          curve = fst s; mean = fst (snd s); k = snd (snd s);
          p = real (index (curve ! (j * w + i)));
          nbs = neighbour_positions w h i j;
          dif = (\<Sum>pos \<leftarrow> nbs. \<bar>p - real (index (curve ! pos))\<bar>);
          count = length nbs;
          val = dif / real count;
          curve' = curve[j * w + i := (curve ! (j * w + i))\<lparr>difference := val\<rparr>];
          delta = val - mean;
          k' = k + 1;
          mean' = mean + delta / real k'
      in (curve', mean', k'))"

text \<open>
  \<open>HilbertCurve::BuildDifference\<close>.  The counter \<open>ind\<close> of the first loop is an
  \<open>unsigned int\<close>.  The first \<open>std::sort\<close> uses \<open>operator<\<close> of
  \<open>HPoint\<close>, which orders by \<open>y\<close>, then \<open>x\<close>; the last one uses \<open>indexCmp\<close>.
  \<open>std::sort\<close> may reorder equal keys; the points of a built curve have pairwise
  different coordinates and indices, for which every sorting algorithm returns the list
  that \<open>sort_key\<close> returns.
\<close>

definition BuildDifference :: "HilbertCurve \<Rightarrow> HilbertCurve" where
  "BuildDifference c =
     (let indexed = map (\<lambda>(v, ind). v\<lparr>index := ind mod 2 ^ 32\<rparr>)
                        (zip (m_curve c) [0 ..< length (m_curve c)]);
          raster = sort_key (\<lambda>p. (Y p, X p)) indexed;
          w = width c; h = height c;
          (curve, mean, k) =
             fold (difference_step w h) (List.product [0 ..< h] [0 ..< w]) (raster, 0, 0)
      in c\<lparr>m_mean_difference := mean, m_curve := sort_key index curve\<rparr>)"

text \<open>The constructor of \<open>HilbertCurve\<close>.\<close>

definition HilbertCurve_new ::
  "hsize \<Rightarrow> hsize \<Rightarrow> CurveType \<Rightarrow> HPoint \<Rightarrow> Orientation \<Rightarrow> bool \<Rightarrow> HilbertCurve" where
  "HilbertCurve_new w h t coord ori differenceCurve =
     (let c = Build (init_curve w h t coord ori)
      in if differenceCurve then reflectY (BuildDifference c) else c)"

text \<open>The coordinates of the points of a curve, in traversal order.\<close>

definition coords :: "HilbertCurve \<Rightarrow> (nat \<times> nat) list" where
  "coords c = map (\<lambda>p. (X p, Y p)) (m_curve c)"

text \<open>The Manhattan distance of two points.\<close>

definition manhattan :: "nat \<times> nat \<Rightarrow> nat \<times> nat \<Rightarrow> nat" where
  "manhattan p q =
     nat (\<bar>int (fst p) - int (fst q)\<bar> + \<bar>int (snd p) - int (snd q)\<bar>)"

text \<open>Every step of a sequence of cells goes to a cell at distance 1.\<close>

fun unit_steps :: "(nat \<times> nat) list \<Rightarrow> bool" where
  "unit_steps (p # q # ps) = (manhattan p q = 1 \<and> unit_steps (q # ps))"
| "unit_steps ps = True"

section \<open>Reversal\<close>

text \<open>The blocked reversal of \<open>reverse_parallel\<close> computes the reversed list.\<close>

lemma swap_loop_length [simp]: "length (swap_loop k fb le xs) = length xs"
  by (induction k arbitrary: fb le xs) simp_all

lemma swap_loop_nth:
  assumes "fb + k \<le> le - k" "le \<le> length xs" "j < length xs"
  shows "swap_loop k fb le xs ! j =
          (if fb \<le> j \<and> j < fb + k \<or> le - k \<le> j \<and> j < le then xs ! (fb + le - 1 - j) else xs ! j)"
  using assms
proof (induction k arbitrary: fb le xs)
  case 0
  then show ?case by auto
next
  case (Suc k)
  let ?xs = "xs[fb := xs ! (le - 1), le - 1 := xs ! fb]"
  have 1: "fb + 1 + k \<le> le - 1 - k" "le - 1 \<le> length ?xs" "j < length ?xs"
    using Suc.prems by simp_all
  have fb: "fb < le - 1" "le - 1 < length xs" "fb < length xs" using Suc.prems by simp_all
  show ?case
    unfolding swap_loop.simps Suc.IH[OF 1]
    using Suc.prems fb by (auto simp: nth_list_update)
qed

lemma swap_range_reverse_length [simp]:
  "length (swap_range_reverse a b c d xs) = length xs"
  by (simp add: swap_range_reverse_def)

text \<open>
  \<open>ys\<close> is \<open>xs\<close> with the first and the last \<open>d\<close> positions of the range from
  \<open>s\<close> to \<open>e\<close> exchanged in reverse order.
\<close>

definition mirrored :: "nat \<Rightarrow> nat \<Rightarrow> nat \<Rightarrow> 'a list \<Rightarrow> 'a list \<Rightarrow> bool" where
  "mirrored s e d xs ys \<longleftrightarrow> length ys = length xs \<and>
     (\<forall>j < length xs. ys ! j =
        (if s \<le> j \<and> j < s + d \<or> e - d \<le> j \<and> j < e then xs ! (s + e - 1 - j) else xs ! j))"

lemma swap_loop_mirrored:
  assumes "fb + k \<le> le - k" "le \<le> length xs"
  shows "mirrored fb le k xs (swap_loop k fb le xs)"
  using assms by (simp add: mirrored_def swap_loop_nth)

lemma mirrored_trans:
  assumes "mirrored s e d xs ys" "mirrored (s + d) (e - d) d' ys zs"
    and "s + d + d' \<le> e - d - d'" "e \<le> length xs"
  shows "mirrored s e (d + d') xs zs"
  using assms unfolding mirrored_def
  by (auto simp: nth_list_update)

lemma block_loop_mirrored:
  assumes "s + k * bs \<le> e - k * bs" "e \<le> length xs"
  shows "\<exists>ys. block_loop k bs s e xs = (s + k * bs, e - k * bs, ys) \<and> mirrored s e (k * bs) xs ys"
  using assms
proof (induction k arbitrary: s e xs)
  case 0
  then show ?case by (auto simp: mirrored_def)
next
  case (Suc k)
  let ?xs = "swap_range_reverse s (s + bs) (e - bs) e xs"
  have a: "s + bs \<le> e - bs" using Suc.prems(1) by simp
  have m1: "mirrored s e bs xs ?xs"
    unfolding swap_range_reverse_def using swap_loop_mirrored[of s bs e xs] a Suc.prems by simp
  have b: "s + bs + k * bs \<le> e - bs - k * bs" "e - bs \<le> length ?xs"
    using Suc.prems by simp_all
  from Suc.IH[OF b] obtain ys where
    ys: "block_loop k bs (s + bs) (e - bs) ?xs = (s + bs + k * bs, e - bs - k * bs, ys)"
        "mirrored (s + bs) (e - bs) (k * bs) ?xs ys" by blast
  have "mirrored s e (bs + k * bs) xs ys"
    using mirrored_trans[OF m1 ys(2)] b Suc.prems by simp
  then show ?case using ys(1) by (simp add: algebra_simps)
qed

lemma mirrored_half_rev:
  assumes "mirrored 0 (length xs) (length xs div 2) xs ys"
  shows "ys = rev xs"
proof (rule nth_equalityI)
  show "length ys = length (rev xs)" using assms by (simp add: mirrored_def)
next
  fix j assume "j < length ys"
  then have j: "j < length xs" using assms by (simp add: mirrored_def)
  then have "ys ! j = (if j < length xs div 2 \<or> length xs - length xs div 2 \<le> j
                        then xs ! (length xs - 1 - j) else xs ! j)"
    using assms by (simp add: mirrored_def)
  moreover have "\<not> (j < length xs div 2 \<or> length xs - length xs div 2 \<le> j) \<Longrightarrow> length xs - 1 - j = j"
    using j by linarith
  ultimately have "ys ! j = xs ! (length xs - 1 - j)" by auto
  then show "ys ! j = rev xs ! j" using j by (simp add: rev_nth)
qed

lemma reverse_parallel_rev: "reverse_parallel xs = rev xs"
proof (cases "length xs div 2 < 10000")
  case True
  then show ?thesis by (simp add: reverse_parallel_def Let_def)
next
  case False
  define L where "L = length xs"
  define mid where "mid = L div 2"
  define k where "k = (mid + 10000 - 1) div 10000 - 1"
  have mid: "10000 \<le> mid" using False by (simp add: mid_def L_def)
  have k1: "k * 10000 < mid" unfolding k_def using mid by (simp add: algebra_simps)
  have k2: "mid \<le> k * 10000 + 10000" unfolding k_def using mid by (simp add: algebra_simps)
  have r: "0 + k * 10000 \<le> L - k * 10000" "L \<le> length xs"
    using k1 by (simp_all add: mid_def L_def) 
  from block_loop_mirrored[OF r] obtain ys where
    ys: "block_loop k 10000 0 L xs = (k * 10000, L - k * 10000, ys)"
        "mirrored 0 L (k * 10000) xs ys" by auto
  let ?zs = "swap_range_reverse (k * 10000) mid (L - mid) (L - k * 10000) ys"
  have ly: "length ys = L" using ys(2) by (simp add: mirrored_def L_def)
  have "mirrored (k * 10000) (L - k * 10000) (mid - k * 10000) ys ?zs"
    unfolding swap_range_reverse_def
    using k1 by (intro swap_loop_mirrored) (simp_all add: ly mid_def)
  then have m2: "mirrored (0 + k * 10000) (L - k * 10000) (mid - k * 10000) ys ?zs"
    by simp
  have "mirrored 0 L (k * 10000 + (mid - k * 10000)) xs ?zs"
    using k1 by (intro mirrored_trans[OF ys(2) m2]) (simp_all add: mid_def L_def)
  then have "mirrored 0 (length xs) (length xs div 2) xs ?zs"
    using k1 by (simp add: mid_def L_def)
  then have "?zs = rev xs" by (rule mirrored_half_rev)
  moreover have "reverse_parallel xs = ?zs"
  proof -
    have f1: "(L = 0) = False" using mid by (auto simp: mid_def)
    have f2: "(mid < 10000) = False" using mid by simp
    show ?thesis
      by (simp only: reverse_parallel_def Let_def L_def[symmetric] mid_def[symmetric]
            k_def[symmetric] f1 f2 if_False ys(1) prod.case)
  qed
  ultimately show ?thesis by simp
qed

section \<open>The points written by BuildCurve\<close>

text \<open>
  The points \<open>BuildCurve\<close> writes for a region, read off a vector of exactly the
  region's area; \<open>prim_points\<close> lists the points of the primitive shapes.  Lemma
  \<open>BuildCurve_frame_aux\<close> shows that \<open>BuildCurve\<close> overwrites exactly the positions
  \<open>idx ..< idx + n * m\<close> with these points and leaves the rest of the vector alone.
\<close>

definition H0_points :: "QuasiSquare \<Rightarrow> HPoint list" where
  "H0_points q = BuildCurve q (replicate (area q) (HPoint2 0 0)) 0"

definition prim_points :: "QuasiSquare \<Rightarrow> HPoint list" where
  "prim_points q =
    (let n = qs_n q; m = qs_m q; c = qs_coord q; ori = qs_oABCD q;
         x1 = uadd (X c) 1; y1 = uadd (Y c) 1 in
     if n = 1 \<and> m = 1 then [c]
     else if n = 1 \<and> m = 2 then
       (if ori = A \<or> ori = B then [c, HPoint2 x1 (Y c)] else [HPoint2 x1 (Y c), c])
     else if n = 2 \<and> m = 1 then
       (if ori = A \<or> ori = B then [c, HPoint2 (X c) y1] else [HPoint2 (X c) y1, c])
     else if n = 2 \<and> m = 2 then
       (case ori of
          A \<Rightarrow> [c, HPoint2 (X c) y1, HPoint2 x1 y1, HPoint2 x1 (usub y1 1)]
        | B \<Rightarrow> [c, HPoint2 x1 (Y c), HPoint2 x1 y1, HPoint2 (usub x1 1) y1]
        | C \<Rightarrow> [HPoint2 x1 y1, HPoint2 x1 (Y c), c, HPoint2 (X c) y1]
        | D \<Rightarrow> [HPoint2 x1 y1, HPoint2 (X c) y1, c, HPoint2 x1 (Y c)])
     else [])"

lemma update_app4:
  "(pre @ x0 # x1 # x2 # x3 # post)
      [length pre := a, length pre + 1 := b, length pre + 2 := c, length pre + 3 := d]
   = pre @ a # b # c # d # post"
  by (simp add: list_update_append eval_nat_numeral)

lemma update_app2:
  "(pre @ x0 # x1 # post)[length pre := a, length pre + 1 := b] = pre @ a # b # post"
  by (simp add: list_update_append)

lemma split_at4:
  assumes "i + 4 \<le> length l"
  obtains x0 x1 x2 x3 where "l = take i l @ x0 # x1 # x2 # x3 # drop (i + 4) l"
proof -
  have "l = take i l @ drop i l" by simp
  moreover have "drop i l = l ! i # drop (i + 1) l" using assms by (simp add: Cons_nth_drop_Suc)
  moreover have "drop (i + 1) l = l ! (i + 1) # drop (i + 2) l"
    using assms Cons_nth_drop_Suc[of "i + 1" l] by simp
  moreover have "drop (i + 2) l = l ! (i + 2) # drop (i + 3) l"
    using assms Cons_nth_drop_Suc[of "i + 2" l] by (simp add: eval_nat_numeral)
  moreover have "drop (i + 3) l = l ! (i + 3) # drop (i + 4) l"
    using assms Cons_nth_drop_Suc[of "i + 3" l] by (simp add: eval_nat_numeral)
  ultimately have "l = take i l @ l ! i # l ! (i + 1) # l ! (i + 2) # l ! (i + 3) # drop (i + 4) l"
    by metis
  then show ?thesis by (rule that)
qed

lemma split_at2:
  assumes "i + 2 \<le> length l"
  obtains x0 x1 where "l = take i l @ x0 # x1 # drop (i + 2) l"
proof -
  have "l = take i l @ drop i l" by simp
  moreover have "drop i l = l ! i # drop (i + 1) l" using assms by (simp add: Cons_nth_drop_Suc)
  moreover have "drop (i + 1) l = l ! (i + 1) # drop (i + 2) l"
    using assms Cons_nth_drop_Suc[of "i + 1" l] by simp
  ultimately have "l = take i l @ l ! i # l ! (i + 1) # drop (i + 2) l"
    by metis
  then show ?thesis by (rule that)
qed

lemma update_frame1:
  "i + 1 \<le> length l \<Longrightarrow> l[i := a] = take i l @ [a] @ drop (i + 1) l"
  by (simp add: upd_conv_take_nth_drop)

lemma update_frame2:
  assumes "i + 2 \<le> length l"
  shows "l[i := a, i + 1 := b] = take i l @ [a, b] @ drop (i + 2) l"
proof -
  obtain x0 x1 where l: "l = take i l @ x0 # x1 # drop (i + 2) l"
    using split_at2[OF assms] by blast
  have i: "length (take i l) = i" using assms by simp
  have "(take i l @ x0 # x1 # drop (i + 2) l)[length (take i l) := a, length (take i l) + 1 := b]
        = take i l @ a # b # drop (i + 2) l"
    by (rule update_app2)
  then show ?thesis unfolding i l[symmetric] by simp
qed

lemma update_frame4:
  assumes "i + 4 \<le> length l"
  shows "l[i := a, i + 1 := b, i + 2 := c, i + 3 := d] = take i l @ [a, b, c, d] @ drop (i + 4) l"
proof -
  obtain x0 x1 x2 x3 where l: "l = take i l @ x0 # x1 # x2 # x3 # drop (i + 4) l"
    using split_at4[OF assms] by blast
  have i: "length (take i l) = i" using assms by simp
  have "(take i l @ x0 # x1 # x2 # x3 # drop (i + 4) l)
          [length (take i l) := a, length (take i l) + 1 := b,
           length (take i l) + 2 := c, length (take i l) + 3 := d]
        = take i l @ a # b # c # d # drop (i + 4) l"
    by (rule update_app4)
  then show ?thesis unfolding i l[symmetric] by simp
qed

lemma prim_points_length:
  "\<not> (2 < n \<or> 2 < m) \<Longrightarrow> length (prim_points (QuasiSquare n m c ori)) = n * m"
  by (cases ori) (auto simp: prim_points_def Let_def)


lemma drop_Suc4: "drop (Suc (Suc (Suc (Suc i)))) l = drop (i + 4) l"
  by (simp add: eval_nat_numeral)

lemmas update_frames =
  update_frame1 update_frame2 update_frame4
  update_frame1[simplified] update_frame2[simplified] update_frame4[simplified]

lemma write_primitive_big:
  "2 < qs_n q \<or> 2 < qs_m q \<Longrightarrow> write_primitive q lst idx = lst"
  by (auto simp: write_primitive_def Let_def)

lemma prim_cases:
  fixes n m :: nat
  assumes "\<not> (2 < n \<or> 2 < m)"
  obtains "n = 0 \<or> m = 0" | "n = 1" "m = 1" | "n = 1" "m = 2" | "n = 2" "m = 1" | "n = 2" "m = 2"
proof -
  have "n = 0 \<or> n = 1 \<or> n = 2" "m = 0 \<or> m = 1 \<or> m = 2" using assms by auto
  then show ?thesis using that by blast
qed

lemma write_primitive_frame:
  assumes "\<not> (2 < n \<or> 2 < m)" "idx + n * m \<le> length lst" "idx + n * m < 2 ^ 32"
  shows "write_primitive (QuasiSquare n m c ori) lst idx =
         take idx lst @ prim_points (QuasiSquare n m c ori) @ drop (idx + n * m) lst"
  using assms(1)
proof (cases rule: prim_cases)
  case 1
  then show ?thesis by (auto simp: write_primitive_def prim_points_def)
next
  case 2
  then show ?thesis using assms(2)
    by (simp add: write_primitive_def prim_points_def update_frames)
next
  case 3
  then have "uadd idx 1 = idx + 1" using assms(3) by (simp add: uadd_small)
  then show ?thesis using 3 assms(2)
    by (simp add: write_primitive_def prim_points_def update_frames Let_def)
next
  case 4
  then have "uadd idx 1 = idx + 1" using assms(3) by (simp add: uadd_small)
  then show ?thesis using 4 assms(2)
    by (simp add: write_primitive_def prim_points_def update_frames Let_def)
next
  case 5
  then have "uadd idx 1 = idx + 1" "uadd idx 2 = idx + 2" "uadd idx 3 = idx + 3"
    using assms(3) by (simp_all add: uadd_small)
  then show ?thesis using 5 assms(2)
    by (cases ori)
       (simp_all add: write_primitive_def prim_points_def update_frames HPoint2_def drop_Suc4
          Let_def)
qed

lemma BuildCurve_frame_aux:
  "area q < 2 ^ 32 \<Longrightarrow>
   (\<forall>lst idx. idx + area q \<le> length lst \<and> idx + area q < 2 ^ 32 \<longrightarrow>
       BuildCurve q lst idx = take idx lst @ H0_points q @ drop (idx + area q) lst)
   \<and> length (H0_points q) = area q
   \<and> H0_points q =
       (if 2 < qs_n q \<or> 2 < qs_m q then
          H0_points (Partition q [] ! 3) @ H0_points (Partition q [] ! 2) @
          H0_points (Partition q [] ! 1) @ H0_points (Partition q [] ! 0)
        else prim_points q)"
proof (induction "qs_n q + qs_m q" arbitrary: q rule: less_induct)
  case less
  obtain n m c ori where q: "q = QuasiSquare n m c ori" by (cases q)
  note aq = less.prems
  show ?case
  proof (cases "2 < qs_n q \<or> 2 < qs_m q")
    case False
    then have prim: "\<not> (2 < n \<or> 2 < m)" by (simp add: q)
    have fr: "\<And>lst idx. idx + n * m \<le> length lst \<Longrightarrow> idx + n * m < 2 ^ 32 \<Longrightarrow>
        BuildCurve q lst idx = take idx lst @ prim_points q @ drop (idx + n * m) lst"
      using write_primitive_frame[OF prim] False
      by (subst BuildCurve.simps) (simp add: q)
    have "H0_points q = prim_points q"
      unfolding H0_points_def using fr[of 0 "replicate (area q) (HPoint2 0 0)"] aq
      by (simp add: area_def q)
    then show ?thesis
      using fr False prim_points_length[OF prim] by (simp add: area_def q)
  next
    case True
    obtain q1 q2 q3 q4 where P: "Partition q [] = [q1, q2, q3, q4]"
      using Partition_length by blast
    note small = Partition_children[OF P True]
    have ar: "area q4 + area q3 + area q2 + area q1 = area q"
      using Partition_shape(2)[of n m c ori] P unfolding q by (simp add: area_def)
    have as: "area q1 < 2 ^ 32" "area q2 < 2 ^ 32" "area q3 < 2 ^ 32" "area q4 < 2 ^ 32"
      using ar aq by simp_all
    have ihf: "BuildCurve k lst idx = take idx lst @ H0_points k @ drop (idx + area k) lst"
      if "qs_n k + qs_m k < qs_n q + qs_m q" "area k < 2 ^ 32"
         "idx + area k \<le> length lst" "idx + area k < 2 ^ 32" for k lst idx
      using less(1)[OF that(1,2)] that(3,4) by blast
    have ihl: "length (H0_points k) = area k"
      if "qs_n k + qs_m k < qs_n q + qs_m q" "area k < 2 ^ 32" for k
      using less(1)[OF that] by blast
    have l: "length (H0_points q1) = area q1" "length (H0_points q2) = area q2"
            "length (H0_points q3) = area q3" "length (H0_points q4) = area q4"
      using ihl small as by simp_all
    have ih1: "\<And>lst idx. idx + area q1 \<le> length lst \<Longrightarrow> idx + area q1 < 2 ^ 32 \<Longrightarrow>
        BuildCurve q1 lst idx = take idx lst @ H0_points q1 @ drop (idx + area q1) lst"
      and ih2: "\<And>lst idx. idx + area q2 \<le> length lst \<Longrightarrow> idx + area q2 < 2 ^ 32 \<Longrightarrow>
        BuildCurve q2 lst idx = take idx lst @ H0_points q2 @ drop (idx + area q2) lst"
      and ih3: "\<And>lst idx. idx + area q3 \<le> length lst \<Longrightarrow> idx + area q3 < 2 ^ 32 \<Longrightarrow>
        BuildCurve q3 lst idx = take idx lst @ H0_points q3 @ drop (idx + area q3) lst"
      and ih4: "\<And>lst idx. idx + area q4 \<le> length lst \<Longrightarrow> idx + area q4 < 2 ^ 32 \<Longrightarrow>
        BuildCurve q4 lst idx = take idx lst @ H0_points q4 @ drop (idx + area q4) lst"
      using ihf small as by simp_all
    have fr: "BuildCurve q lst idx =
        take idx lst @ (H0_points q4 @ H0_points q3 @ H0_points q2 @ H0_points q1)
          @ drop (idx + area q) lst"
      if room: "idx + area q \<le> length lst" and bound: "idx + area q < 2 ^ 32" for lst idx
    proof -
      have u: "uadd idx (umul (qs_n q4) (qs_m q4)) = idx + area q4"
        "uadd (idx + area q4) (umul (qs_n q3) (qs_m q3)) = idx + area q4 + area q3"
        "uadd (idx + area q4 + area q3) (umul (qs_n q2) (qs_m q2))
           = idx + area q4 + area q3 + area q2"
        using bound ar as by (simp_all add: uadd_small umul_small area_def)
      have B: "BuildCurve q lst idx =
          BuildCurve q1 (BuildCurve q2 (BuildCurve q3 (BuildCurve q4 lst idx) (idx + area q4))
             (idx + area q4 + area q3)) (idx + area q4 + area q3 + area q2)"
        using True
        by (subst BuildCurve.simps) (simp add: P Let_def write_primitive_big u)
      let ?l4 = "take idx lst @ H0_points q4 @ drop (idx + area q4) lst"
      have s4: "BuildCurve q4 lst idx = ?l4"
        using room bound ar by (intro ih4) simp_all
      let ?l3 = "take idx lst @ H0_points q4 @ H0_points q3 @ drop (idx + area q4 + area q3) lst"
      have s3: "BuildCurve q3 ?l4 (idx + area q4) = ?l3"
      proof -
        have "BuildCurve q3 ?l4 (idx + area q4) =
              take (idx + area q4) ?l4 @ H0_points q3 @ drop (idx + area q4 + area q3) ?l4"
          using room bound ar l by (intro ih3) simp_all
        then show ?thesis using room ar l by (simp add: add.commute add.left_commute)
      qed
      let ?l2 = "take idx lst @ H0_points q4 @ H0_points q3 @ H0_points q2
                  @ drop (idx + area q4 + area q3 + area q2) lst"
      have s2: "BuildCurve q2 ?l3 (idx + area q4 + area q3) = ?l2"
      proof -
        have "BuildCurve q2 ?l3 (idx + area q4 + area q3) =
              take (idx + area q4 + area q3) ?l3 @ H0_points q2
                @ drop (idx + area q4 + area q3 + area q2) ?l3"
          using room bound ar l by (intro ih2) simp_all
        then show ?thesis using room ar l by (simp add: add.commute add.left_commute)
      qed
      let ?l1 = "take idx lst @ H0_points q4 @ H0_points q3 @ H0_points q2 @ H0_points q1
                  @ drop (idx + area q4 + area q3 + area q2 + area q1) lst"
      have s1: "BuildCurve q1 ?l2 (idx + area q4 + area q3 + area q2) = ?l1"
      proof -
        have "BuildCurve q1 ?l2 (idx + area q4 + area q3 + area q2) =
              take (idx + area q4 + area q3 + area q2) ?l2 @ H0_points q1
                @ drop (idx + area q4 + area q3 + area q2 + area q1) ?l2"
          using room bound ar l by (intro ih1) simp_all
        then show ?thesis using room ar l by (simp add: add.commute add.left_commute)
      qed
      have eq: "idx + area q4 + area q3 + area q2 + area q1 = idx + area q" using ar by simp
      show ?thesis unfolding B s4 s3 s2 s1 eq by simp
    qed
    have H: "H0_points q = H0_points q4 @ H0_points q3 @ H0_points q2 @ H0_points q1"
      unfolding H0_points_def[of q] using fr[of 0 "replicate (area q) (HPoint2 0 0)"] aq by simp
    show ?thesis
      using fr H l ar True by (simp add: P)
  qed
qed

section \<open>Every curve fills its region\<close>

text \<open>
  A curve \<open>fills\<close> its region when its points have pairwise different coordinates and
  the coordinates are exactly the cells of the region.
\<close>

definition xy :: "HPoint \<Rightarrow> nat \<times> nat" where
  "xy p = (X p, Y p)"

lemma coords_xy: "coords c = map xy (m_curve c)"
  by (simp add: coords_def xy_def)

lemmas H0_points_length = BuildCurve_frame_aux[THEN conjunct2, THEN conjunct1]
lemmas H0_points_rec = BuildCurve_frame_aux[THEN conjunct2, THEN conjunct2]

lemma usub_small: "b \<le> a \<Longrightarrow> a < 2 ^ 32 \<Longrightarrow> usub a b = a - b"
  by (simp add: usub_def of_nat_diff[symmetric] del: of_nat_diff)

lemma prim_points_cells:
  assumes "\<not> (2 < n \<or> 2 < m)" "in_range (QuasiSquare n m c ori)"
  shows "distinct (map xy (prim_points (QuasiSquare n m c ori)))
       \<and> set (map xy (prim_points (QuasiSquare n m c ori))) = cells (QuasiSquare n m c ori)"
  using assms(1)
proof (cases rule: prim_cases)
  case 1
  then show ?thesis by (auto simp: prim_points_def cells_def)
next
  case 2
  then show ?thesis by (auto simp: prim_points_def cells_def xy_def)
next
  case 3
  then have "uadd (X c) 1 = X c + 1" using assms(2) by (simp add: in_range_def uadd_small)
  then show ?thesis using 3
    by (auto simp: prim_points_def cells_def xy_def HPoint2_def Let_def)
next
  case 4
  then have "uadd (Y c) 1 = Y c + 1" using assms(2) by (simp add: in_range_def uadd_small)
  then show ?thesis using 4
    by (auto simp: prim_points_def cells_def xy_def HPoint2_def Let_def)
next
  case 5
  then have b: "X c + 1 < 2 ^ 32" "Y c + 1 < 2 ^ 32" using assms(2) by (simp_all add: in_range_def)
  then have u: "uadd (X c) 1 = X c + 1" "uadd (Y c) 1 = Y c + 1"
    by (simp_all add: uadd_small)
  have v: "usub (X c + 1) 1 = X c" "usub (Y c + 1) 1 = Y c"
    using b by (simp_all add: usub_small)
  have u': "uadd (X c) (Suc 0) = Suc (X c)" "uadd (Y c) (Suc 0) = Suc (Y c)"
    and v': "usub (Suc (X c)) (Suc 0) = X c" "usub (Suc (Y c)) (Suc 0) = Y c"
    using u v by simp_all
  show ?thesis using 5
    by (cases ori) (auto simp: prim_points_def cells_def xy_def HPoint2_def Let_def u' v')
qed

lemma H0_points_cells:
  "in_range q \<Longrightarrow> area q < 2 ^ 32 \<Longrightarrow>
   distinct (map xy (H0_points q)) \<and> set (map xy (H0_points q)) = cells q"
proof (induction "qs_n q + qs_m q" arbitrary: q rule: less_induct)
  case less
  obtain n m c ori where q: "q = QuasiSquare n m c ori" by (cases q)
  note ir = less.prems(1) and aq = less.prems(2)
  show ?case
  proof (cases "2 < qs_n q \<or> 2 < qs_m q")
    case False
    then have "H0_points q = prim_points q" using H0_points_rec[OF aq] by simp
    then show ?thesis using prim_points_cells[of n m c ori] False ir by (simp add: q)
  next
    case True
    define P where "P = Partition q []"
    have P: "Partition q [] = [P ! 0, P ! 1, P ! 2, P ! 3]"
      using Partition_shape(1)[of n m c ori] by (simp add: q P_def)
    note small = Partition_children[OF P True]
    note parts = Partition_cells[of n m c ori, folded q, folded P_def, OF ir]
    have ar: "area (P ! 0) + area (P ! 1) + area (P ! 2) + area (P ! 3) = area q"
      using Partition_shape(2)[of n m c ori] by (simp add: q P_def area_def)
    have ih: "distinct (map xy (H0_points (P ! i))) \<and> set (map xy (H0_points (P ! i))) = cells (P ! i)"
      if "i < 4" for i
    proof -
      have i: "i = 0 \<or> i = 1 \<or> i = 2 \<or> i = 3" using that by auto
      then have 1: "qs_n (P ! i) + qs_m (P ! i) < qs_n q + qs_m q" using small by auto
      have 2: "in_range (P ! i)" using i parts(8-11) by auto
      have 3: "area (P ! i) < 2 ^ 32" using i ar aq by auto
      show ?thesis using 1 2 3 by (rule less(1))
    qed
    have R: "H0_points q = H0_points (P ! 3) @ H0_points (P ! 2) @ H0_points (P ! 1) @ H0_points (P ! 0)"
      using H0_points_rec[OF aq] True by (simp add: P_def)
    have U: "set (map xy (H0_points q)) = cells q"
      unfolding R using ih[of 0] ih[of 1] ih[of 2] ih[of 3] parts(1) by auto
    have D: "distinct (map xy (H0_points q))"
      unfolding R using ih[of 0] ih[of 1] ih[of 2] ih[of 3] parts(2-7)
      by (simp add: Int_commute Int_Un_distrib Int_Un_distrib2)
    show ?thesis using U D by simp
  qed
qed

definition fills :: "HilbertCurve \<Rightarrow> bool" where
  "fills c \<longleftrightarrow> distinct (coords c) \<and> set (coords c) = cells (base c)"

lemma mirror_val:
  assumes "cx \<le> x" "x < cx + m" "cx + m \<le> 2 ^ 32"
  shows "nat (u32 (int m - 1 - int x + 2 * int cx)) = 2 * cx + m - 1 - x"
proof -
  have e: "int m - 1 - int x + 2 * int cx = int (2 * cx + m - 1 - x)"
    using assms by (simp add: of_nat_diff algebra_simps)
  have "2 * cx + m - 1 - x < cx + m" using assms(1,2) by linarith
  then have "2 * cx + m - 1 - x < 2 ^ 32" using assms(3) by (rule less_le_trans)
  then have "int (2 * cx + m - 1 - x) < int (2 ^ 32)" by (simp only: of_nat_less_iff)
  then have "int (2 * cx + m - 1 - x) < 2 ^ 32" by simp
  then have "u32 (int (2 * cx + m - 1 - x)) = int (2 * cx + m - 1 - x)"
    by (simp add: u32_def)
  then show ?thesis unfolding e by simp
qed

definition mirror :: "nat \<Rightarrow> nat \<Rightarrow> nat \<Rightarrow> nat" where
  "mirror org m x = 2 * org + m - 1 - x"

lemma mirror_in: "cx \<le> x \<Longrightarrow> x < cx + m \<Longrightarrow> cx \<le> mirror cx m x \<and> mirror cx m x < cx + m"
  by (auto simp: mirror_def)

lemma mirror_mirror: "cx \<le> x \<Longrightarrow> x < cx + m \<Longrightarrow> mirror cx m (mirror cx m x) = x"
  by (auto simp: mirror_def)

lemma mirror_image: "mirror cx m ` {cx ..< cx + m} = {cx ..< cx + m}"
proof (intro equalityI subsetI)
  fix x assume "x \<in> mirror cx m ` {cx ..< cx + m}"
  then show "x \<in> {cx ..< cx + m}" using mirror_in[of cx _ m] by auto
next
  fix x assume x: "x \<in> {cx ..< cx + m}"
  then have "mirror cx m x \<in> {cx ..< cx + m}" "mirror cx m (mirror cx m x) = x"
    using mirror_in[of cx x m] mirror_mirror[of cx x m] by auto
  then show "x \<in> mirror cx m ` {cx ..< cx + m}" by (metis imageI)
qed

lemma mirror_inj: "inj_on (mirror cx m) {cx ..< cx + m}"
  by (rule inj_on_inverseI[where g = "mirror cx m"]) (simp add: mirror_mirror)

lemma coords_reflectX:
  assumes "set (coords c) \<subseteq> cells (base c)" "in_range (base c)"
  shows "coords (reflectX c) =
     map (\<lambda>p. (mirror (X (qs_coord (base c))) (qs_m (base c)) (fst p), snd p)) (coords c)"
proof -
  have "nat (u32 (int (qs_m (base c)) - 1 - int (X p) + 2 * int (X (qs_coord (base c)))))
      = mirror (X (qs_coord (base c))) (qs_m (base c)) (X p)" if "p \<in> set (m_curve c)" for p
  proof -
    have "(X p, Y p) \<in> cells (base c)" using assms(1) that by (auto simp: coords_def)
    then show ?thesis
      unfolding mirror_def using assms(2)
      by (intro mirror_val) (auto simp: cells_def in_range_def)
  qed
  then show ?thesis by (simp add: reflectX_def coords_def cong: map_cong)
qed

lemma coords_reflectY:
  assumes "set (coords c) \<subseteq> cells (base c)" "in_range (base c)"
  shows "coords (reflectY c) =
     map (\<lambda>p. (fst p, mirror (Y (qs_coord (base c))) (qs_n (base c)) (snd p))) (coords c)"
proof -
  have "nat (u32 (int (qs_n (base c)) - 1 - int (Y p) + 2 * int (Y (qs_coord (base c)))))
      = mirror (Y (qs_coord (base c))) (qs_n (base c)) (Y p)" if "p \<in> set (m_curve c)" for p
  proof -
    have "(X p, Y p) \<in> cells (base c)" using assms(1) that by (auto simp: coords_def)
    then show ?thesis
      unfolding mirror_def using assms(2)
      by (intro mirror_val) (auto simp: cells_def in_range_def)
  qed
  then show ?thesis by (simp add: reflectY_def coords_def cong: map_cong)
qed

lemma base_reflect [simp]:
  "base (reflectX c) = base c" "base (reflectY c) = base c" "base (reflect c) = base c"
  "base (reverse c) = base c" "base (reflectAndReverse c) = base c"
  "base (apply_transform t c) = base c"
  by (auto simp: reflectX_def reflectY_def reflect_def reverse_def reflectAndReverse_def
      apply_transform_def split: Transform.split)

lemma coords_reverse [simp]: "coords (reverse c) = rev (coords c)"
  by (simp add: reverse_def coords_def reverse_parallel_rev rev_map)

lemma fills_reverse: "fills c \<Longrightarrow> fills (reverse c)"
  by (simp add: fills_def)

lemma fills_reflectX:
  assumes "fills c" "in_range (base c)"
  shows "fills (reflectX c)"
proof -
  let ?f = "\<lambda>p. (mirror (X (qs_coord (base c))) (qs_m (base c)) (fst p), snd p)"
  have sub: "set (coords c) \<subseteq> cells (base c)" using assms(1) by (simp add: fills_def)
  note e = coords_reflectX[OF sub assms(2)]
  have inj: "inj_on ?f (cells (base c))"
    unfolding cells_def using mirror_inj[of "X (qs_coord (base c))" "qs_m (base c)"]
    by (auto simp: inj_on_def)
  have img: "?f ` cells (base c) = cells (base c)"
  proof -
    have "?f ` cells (base c) = (mirror (X (qs_coord (base c))) (qs_m (base c)) `
        {X (qs_coord (base c)) ..< X (qs_coord (base c)) + qs_m (base c)}) \<times>
        {Y (qs_coord (base c)) ..< Y (qs_coord (base c)) + qs_n (base c)}"
      unfolding cells_def by force
    then show ?thesis by (simp add: mirror_image cells_def)
  qed
  show ?thesis
    unfolding fills_def e using assms(1) inj img
    by (simp add: fills_def distinct_map)
qed

lemma fills_reflectY:
  assumes "fills c" "in_range (base c)"
  shows "fills (reflectY c)"
proof -
  let ?f = "\<lambda>p. (fst p, mirror (Y (qs_coord (base c))) (qs_n (base c)) (snd p))"
  have sub: "set (coords c) \<subseteq> cells (base c)" using assms(1) by (simp add: fills_def)
  note e = coords_reflectY[OF sub assms(2)]
  have inj: "inj_on ?f (cells (base c))"
    unfolding cells_def using mirror_inj[of "Y (qs_coord (base c))" "qs_n (base c)"]
    by (auto simp: inj_on_def)
  have img: "?f ` cells (base c) = cells (base c)"
  proof -
    have "?f ` cells (base c) = {X (qs_coord (base c)) ..< X (qs_coord (base c)) + qs_m (base c)} \<times>
        (mirror (Y (qs_coord (base c))) (qs_n (base c)) `
        {Y (qs_coord (base c)) ..< Y (qs_coord (base c)) + qs_n (base c)})"
      unfolding cells_def by force
    then show ?thesis by (simp add: mirror_image cells_def)
  qed
  show ?thesis
    unfolding fills_def e using assms(1) inj img
    by (simp add: fills_def distinct_map)
qed

lemma fills_apply_transform:
  assumes "fills c" "in_range (base c)"
  shows "fills (apply_transform t c)"
  using assms
  by (cases t)
     (auto simp: apply_transform_def reflect_def reflectAndReverse_def
        intro: fills_reverse fills_reflectX fills_reflectY)

section \<open>Composite curves fill their region\<close>

lemma Build_H0: "m_type c = H0 \<Longrightarrow> Build c = BuildCurveH0 c"
  by (subst Build.simps) simp

lemma Build_composite:
  assumes "m_type c \<noteq> H0"
  shows "Build c =
    joinCurve c
      (apply_transform (fst (child_transforms (m_type c) (qs_oABCD (base c))))
        (Build (init_curve (width c - width c div 2) (height c - height c div 2)
                  (fst (child_types (m_type c) (qs_oABCD (base c))))
                  (hp_plus (qs_coord (base c)) (HPoint2 0 0))
                  (fst (child_orientations (m_type c) (qs_oABCD (base c)))))))
      (apply_transform (fst (snd (child_transforms (m_type c) (qs_oABCD (base c)))))
        (Build (init_curve (width c - width c div 2) (height c div 2)
                  (fst (snd (child_types (m_type c) (qs_oABCD (base c)))))
                  (hp_plus (qs_coord (base c)) (HPoint2 0 (height c - height c div 2)))
                  (fst (snd (child_orientations (m_type c) (qs_oABCD (base c))))))))
      (apply_transform (fst (snd (snd (child_transforms (m_type c) (qs_oABCD (base c))))))
        (Build (init_curve (width c div 2) (height c div 2)
                  (fst (snd (snd (child_types (m_type c) (qs_oABCD (base c))))))
                  (hp_plus (qs_coord (base c))
                     (HPoint2 (width c - width c div 2) (height c - height c div 2)))
                  (fst (snd (snd (child_orientations (m_type c) (qs_oABCD (base c)))))))))
      (apply_transform (snd (snd (snd (child_transforms (m_type c) (qs_oABCD (base c))))))
        (Build (init_curve (width c div 2) (height c - height c div 2)
                  (snd (snd (snd (child_types (m_type c) (qs_oABCD (base c))))))
                  (hp_plus (qs_coord (base c)) (HPoint2 (width c - width c div 2) 0))
                  (snd (snd (snd (child_orientations (m_type c) (qs_oABCD (base c)))))))))"
  using assms by (subst Build.simps) (simp add: Let_def)

lemma base_joinCurve [simp]: "base (joinCurve c q1 q2 q3 q4) = base c"
  by (simp add: joinCurve_def)

lemma base_Build [simp]: "base (Build c) = base c"
  by (cases "m_type c = H0") (simp_all add: Build_H0 Build_composite BuildCurveH0_def)

lemma coords_joinCurve:
  "coords (joinCurve c q1 q2 q3 q4) =
     (case qs_oABCD (base c) of
        A \<Rightarrow> coords q1 @ coords q2 @ coords q3 @ coords q4
      | B \<Rightarrow> coords q1 @ coords q4 @ coords q3 @ coords q2
      | C \<Rightarrow> coords q3 @ coords q4 @ coords q1 @ coords q2
      | D \<Rightarrow> coords q3 @ coords q2 @ coords q1 @ coords q4)"
  by (simp add: joinCurve_def coords_def split: Orientation.split)

lemma fills_joinCurve:
  assumes f: "fills q1" "fills q2" "fills q3" "fills q4"
    and u: "cells (base q1) \<union> cells (base q2) \<union> cells (base q3) \<union> cells (base q4) = cells (base c)"
    and d: "cells (base q1) \<inter> cells (base q2) = {}" "cells (base q1) \<inter> cells (base q3) = {}"
       "cells (base q1) \<inter> cells (base q4) = {}" "cells (base q2) \<inter> cells (base q3) = {}"
       "cells (base q2) \<inter> cells (base q4) = {}" "cells (base q3) \<inter> cells (base q4) = {}"
  shows "fills (joinCurve c q1 q2 q3 q4)"
proof -
  have s: "set (coords q1) = cells (base q1)" "set (coords q2) = cells (base q2)"
    "set (coords q3) = cells (base q3)" "set (coords q4) = cells (base q4)"
    and dd: "distinct (coords q1)" "distinct (coords q2)" "distinct (coords q3)" "distinct (coords q4)"
    using f by (simp_all add: fills_def)
  have d': "cells (base q2) \<inter> cells (base q1) = {}" "cells (base q3) \<inter> cells (base q1) = {}"
       "cells (base q4) \<inter> cells (base q1) = {}" "cells (base q3) \<inter> cells (base q2) = {}"
       "cells (base q4) \<inter> cells (base q2) = {}" "cells (base q4) \<inter> cells (base q3) = {}"
    using d by (simp_all add: Int_commute)
  show ?thesis
    unfolding fills_def coords_joinCurve base_joinCurve
    using u[symmetric]
    by (cases "qs_oABCD (base c)")
       (simp_all add: s dd d d' Int_Un_distrib Int_Un_distrib2 Un_ac)
qed

lemma quadrant_cells:
  fixes cx cy w h :: nat
  defines "w2 \<equiv> w div 2" and "h2 \<equiv> h div 2"
  defines "w1 \<equiv> w - w2" and "h1 \<equiv> h - h2"
  defines "Q1 \<equiv> {cx + 0 ..< cx + 0 + w1} \<times> {cy + 0 ..< cy + 0 + h1}"
    and "Q2 \<equiv> {cx + 0 ..< cx + 0 + w1} \<times> {cy + h1 ..< cy + h1 + h2}"
    and "Q3 \<equiv> {cx + w1 ..< cx + w1 + w2} \<times> {cy + h1 ..< cy + h1 + h2}"
    and "Q4 \<equiv> {cx + w1 ..< cx + w1 + w2} \<times> {cy + 0 ..< cy + 0 + h1}"
  shows "Q1 \<union> Q2 \<union> Q3 \<union> Q4 = {cx ..< cx + w} \<times> {cy ..< cy + h}"
    and "Q1 \<inter> Q2 = {}" "Q1 \<inter> Q3 = {}" "Q1 \<inter> Q4 = {}" "Q2 \<inter> Q3 = {}" "Q2 \<inter> Q4 = {}" "Q3 \<inter> Q4 = {}"
proof -
  have w: "w = w1 + w2" and h: "h = h1 + h2" by (simp_all add: w1_def w2_def h1_def h2_def)
  show "Q1 \<union> Q2 \<union> Q3 \<union> Q4 = {cx ..< cx + w} \<times> {cy ..< cy + h}"
    unfolding Q1_def Q2_def Q3_def Q4_def w h by auto
  show "Q1 \<inter> Q2 = {}" "Q1 \<inter> Q3 = {}" "Q1 \<inter> Q4 = {}" "Q2 \<inter> Q3 = {}" "Q2 \<inter> Q4 = {}" "Q3 \<inter> Q4 = {}"
    unfolding Q1_def Q2_def Q3_def Q4_def by auto
qed

lemma base_init_curve:
  assumes "X coord + dx < 2 ^ 32" "Y coord + dy < 2 ^ 32"
  shows "base (init_curve w h t (hp_plus coord (HPoint2 dx dy)) ori) =
     QuasiSquare h w (coord\<lparr>X := X coord + dx, Y := Y coord + dy\<rparr>) ori"
  using assms by (simp add: init_curve_def hp_plus_def HPoint2_def uadd_small)

lemma cells_init_curve:
  assumes "X coord + dx < 2 ^ 32" "Y coord + dy < 2 ^ 32"
  shows "cells (base (init_curve w h t (hp_plus coord (HPoint2 dx dy)) ori)) =
     {X coord + dx ..< X coord + dx + w} \<times> {Y coord + dy ..< Y coord + dy + h}"
  by (simp add: base_init_curve[OF assms] cells_def)

lemma Build_fills:
  "in_range (base c) \<Longrightarrow> area (base c) < 2 ^ 32 \<Longrightarrow>
   fills (Build c) \<and> length (m_curve (Build c)) = area (base c)"
proof (induction "rank (m_type c)" arbitrary: c rule: less_induct)
  case less
  note inr = less.prems(1) and ac = less.prems(2)
  show ?case
  proof (cases "m_type c = H0")
    case True
    have "m_curve (Build c) = H0_points (base c)"
      using ac by (simp add: Build_H0[OF True] BuildCurveH0_def H0_points_def area_def umul_small)
    then show ?thesis
      using H0_points_cells[OF inr ac] H0_points_length[OF ac]
      by (simp add: fills_def coords_xy Build_H0[OF True] BuildCurveH0_def)
  next
    case False
    define t where "t = m_type c"
    define ori where "ori = qs_oABCD (base c)"
    define coord where "coord = qs_coord (base c)"
    define w where "w = width c"
    define h where "h = height c"
    define k1 where "k1 = init_curve (w - w div 2) (h - h div 2) (fst (child_types t ori))
        (hp_plus coord (HPoint2 0 0)) (fst (child_orientations t ori))"
    define k2 where "k2 = init_curve (w - w div 2) (h div 2) (fst (snd (child_types t ori)))
        (hp_plus coord (HPoint2 0 (h - h div 2))) (fst (snd (child_orientations t ori)))"
    define k3 where "k3 = init_curve (w div 2) (h div 2) (fst (snd (snd (child_types t ori))))
        (hp_plus coord (HPoint2 (w - w div 2) (h - h div 2)))
        (fst (snd (snd (child_orientations t ori))))"
    define k4 where "k4 = init_curve (w div 2) (h - h div 2) (snd (snd (snd (child_types t ori))))
        (hp_plus coord (HPoint2 (w - w div 2) 0)) (snd (snd (snd (child_orientations t ori))))"
    define f1 where "f1 = fst (child_transforms t ori)"
    define f2 where "f2 = fst (snd (child_transforms t ori))"
    define f3 where "f3 = fst (snd (snd (child_transforms t ori)))"
    define f4 where "f4 = snd (snd (snd (child_transforms t ori)))"
    have B: "Build c = joinCurve c (apply_transform f1 (Build k1)) (apply_transform f2 (Build k2))
        (apply_transform f3 (Build k3)) (apply_transform f4 (Build k4))"
      unfolding Build_composite[OF False] k1_def k2_def k3_def k4_def f1_def f2_def f3_def f4_def
        t_def ori_def coord_def w_def h_def ..
    have rk: "rank (m_type k1) < rank (m_type c)" "rank (m_type k2) < rank (m_type c)"
      "rank (m_type k3) < rank (m_type c)" "rank (m_type k4) < rank (m_type c)"
      using child_types_rank[OF False, of ori]
      by (simp_all add: k1_def k2_def k3_def k4_def init_curve_def t_def)
    have bc: "cells (base c) = {X coord ..< X coord + w} \<times> {Y coord ..< Y coord + h}"
      by (simp add: cells_def coord_def w_def h_def width_def height_def)
    have rg: "X coord + w < 2 ^ 32" "Y coord + h < 2 ^ 32"
      using inr by (simp_all add: in_range_def coord_def w_def h_def width_def height_def)
    have "X coord + 0 \<le> X coord + w" "Y coord + 0 \<le> Y coord + h"
      "X coord + (w - w div 2) \<le> X coord + w" "Y coord + (h - h div 2) \<le> Y coord + h"
      by simp_all
    then have o: "X coord + 0 < 2 ^ 32" "Y coord + 0 < 2 ^ 32"
      "X coord + (w - w div 2) < 2 ^ 32" "Y coord + (h - h div 2) < 2 ^ 32"
      using rg by (blast intro: le_less_trans)+
    have bk: "base k1 = QuasiSquare (h - h div 2) (w - w div 2)
                 (coord\<lparr>X := X coord + 0, Y := Y coord + 0\<rparr>) (fst (child_orientations t ori))"
      "base k2 = QuasiSquare (h div 2) (w - w div 2)
                 (coord\<lparr>X := X coord + 0, Y := Y coord + (h - h div 2)\<rparr>)
                 (fst (snd (child_orientations t ori)))"
      "base k3 = QuasiSquare (h div 2) (w div 2)
                 (coord\<lparr>X := X coord + (w - w div 2), Y := Y coord + (h - h div 2)\<rparr>)
                 (fst (snd (snd (child_orientations t ori))))"
      "base k4 = QuasiSquare (h - h div 2) (w div 2)
                 (coord\<lparr>X := X coord + (w - w div 2), Y := Y coord + 0\<rparr>)
                 (snd (snd (snd (child_orientations t ori))))"
      unfolding k1_def k2_def k3_def k4_def using o by (simp_all add: base_init_curve)
    have "X coord + 0 + (w - w div 2) \<le> X coord + w" "Y coord + 0 + (h - h div 2) \<le> Y coord + h"
      "Y coord + (h - h div 2) + h div 2 \<le> Y coord + h"
      "X coord + (w - w div 2) + w div 2 \<le> X coord + w"
      by simp_all
    then have "X coord + 0 + (w - w div 2) < 2 ^ 32" "Y coord + 0 + (h - h div 2) < 2 ^ 32"
      "Y coord + (h - h div 2) + h div 2 < 2 ^ 32" "X coord + (w - w div 2) + w div 2 < 2 ^ 32"
      using rg by (blast intro: le_less_trans)+
    then have ir: "in_range (base k1)" "in_range (base k2)" "in_range (base k3)" "in_range (base k4)"
      unfolding in_range_def bk by simp_all
    have ar: "area (base k1) + area (base k2) + area (base k3) + area (base k4) = area (base c)"
    proof -
      have "w = (w - w div 2) + w div 2" "h = (h - h div 2) + h div 2" by simp_all
      then have "(h - h div 2) * (w - w div 2) + h div 2 * (w - w div 2) + h div 2 * (w div 2)
          + (h - h div 2) * (w div 2) = h * w"
        by (metis add_mult_distrib add_mult_distrib2 add.assoc add.commute)
      then show ?thesis
        by (simp add: area_def bk) (simp add: w_def h_def width_def height_def)
    qed
    have ak: "area (base k1) < 2 ^ 32" "area (base k2) < 2 ^ 32" "area (base k3) < 2 ^ 32"
      "area (base k4) < 2 ^ 32"
      using ar ac by simp_all
    note ih1 = less(1)[OF rk(1) ir(1) ak(1)] and ih2 = less(1)[OF rk(2) ir(2) ak(2)]
      and ih3 = less(1)[OF rk(3) ir(3) ak(3)] and ih4 = less(1)[OF rk(4) ir(4) ak(4)]
    have ft: "fills (apply_transform f1 (Build k1))" "fills (apply_transform f2 (Build k2))"
      "fills (apply_transform f3 (Build k3))" "fills (apply_transform f4 (Build k4))"
      using ih1 ih2 ih3 ih4 ir by (simp_all add: fills_apply_transform)
    have cb: "cells (base k1) = {X coord + 0 ..< X coord + 0 + (w - w div 2)} \<times> {Y coord + 0 ..< Y coord + 0 + (h - h div 2)}"
      "cells (base k2) = {X coord + 0 ..< X coord + 0 + (w - w div 2)} \<times> {Y coord + (h - h div 2) ..< Y coord + (h - h div 2) + h div 2}"
      "cells (base k3) = {X coord + (w - w div 2) ..< X coord + (w - w div 2) + w div 2} \<times> {Y coord + (h - h div 2) ..< Y coord + (h - h div 2) + h div 2}"
      "cells (base k4) = {X coord + (w - w div 2) ..< X coord + (w - w div 2) + w div 2} \<times> {Y coord + 0 ..< Y coord + 0 + (h - h div 2)}"
      unfolding k1_def k2_def k3_def k4_def
      by (rule cells_init_curve[OF o(1) o(2)], rule cells_init_curve[OF o(1) o(4)],
          rule cells_init_curve[OF o(3) o(4)], rule cells_init_curve[OF o(3) o(2)])
    have F: "fills (Build c)"
      unfolding B
      by (rule fills_joinCurve[OF ft])
         (simp_all only: base_reflect base_Build cb bc quadrant_cells)
    have len: "length (m_curve (apply_transform f (Build k))) = area (base k)"
      if "length (m_curve (Build k)) = area (base k)" for f k
      using that
      by (cases f) (simp_all add: apply_transform_def reverse_def reflect_def reflectX_def
          reflectY_def reflectAndReverse_def reverse_parallel_rev)
    have L: "length (m_curve (Build c)) = area (base c)"
      unfolding B using len ih1 ih2 ih3 ih4 ar
      by (cases "qs_oABCD (base c)") (simp_all add: joinCurve_def)
    show ?thesis using F L by simp
  qed
qed

end
